theory Spec2Isabelle
  imports Complex_Main "HOL-Library.Multiset"
begin

section \<open>Python primitives used by the modules\<close>

text \<open>
  \<open>str(n)\<close> for a Python int: the decimal digits, most significant first, with a leading
  minus sign for a negative number. The f-strings of the sources format their integer
  fields with it.
\<close>

definition digit_char :: "nat \<Rightarrow> char" where
  "digit_char d =
     (if d = 0 then CHR ''0'' else if d = 1 then CHR ''1'' else if d = 2 then CHR ''2''
      else if d = 3 then CHR ''3'' else if d = 4 then CHR ''4'' else if d = 5 then CHR ''5''
      else if d = 6 then CHR ''6'' else if d = 7 then CHR ''7'' else if d = 8 then CHR ''8''
      else CHR ''9'')"

fun str_nat :: "nat \<Rightarrow> string" where
  "str_nat n = (if n < 10 then [digit_char n] else str_nat (n div 10) @ [digit_char (n mod 10)])"

declare str_nat.simps [simp del]

definition str_int :: "int \<Rightarrow> string" where
  "str_int i = (if i < 0 then CHR ''-'' # str_nat (nat (- i)) else str_nat (nat i))"

section \<open>job_tracker.py: the work-item status store\<close>

text \<open>
  \<open>JobTracker._status\<close> is a dict from the key string of a pair to a dict of fields.
  Every entry the class writes has the field \<open>status\<close>; the other four fields are
  present or absent, which the record keeps as options.
\<close>

record job_entry =
  status :: string
  filter_batch_job_ids :: "string list option"
  filter_completed_at :: "string option"
  score_batch_job_ids :: "string list option"
  score_completed_at :: "string option"

type_synonym job_status = "string \<rightharpoonup> job_entry"

text \<open>The entry \<open>{"status": "pending"}\<close>.\<close>

definition pending_entry :: job_entry where
  "pending_entry =
     \<lparr>status = ''pending'', filter_batch_job_ids = None, filter_completed_at = None,
      score_batch_job_ids = None, score_completed_at = None\<rparr>"

text \<open>\<open>_make_key\<close>: \<open>f"{person_id}_{topic}"\<close>.\<close>

definition make_key :: "int \<Rightarrow> string \<Rightarrow> string" where
  "make_key person_id topic = str_int person_id @ ''_'' @ topic"

text \<open>
  \<open>get_pending_pairs\<close>: one pass over \<open>all_pairs\<close>, appending the pairs that need the
  phase; the list returned keeps the order of the input.
\<close>

fun get_pending_pairs :: "job_status \<Rightarrow> string \<Rightarrow> (int \<times> string) list \<Rightarrow> (int \<times> string) list" where
  "get_pending_pairs st phase [] = []"
| "get_pending_pairs st phase ((person_id, topic) # rest) =
     (case st (make_key person_id topic) of
        None \<Rightarrow>
          (if phase = ''filter'' then [(person_id, topic)] else [])
          @ get_pending_pairs st phase rest
      | Some e \<Rightarrow>
          (if phase = ''filter'' \<and> status e = ''pending'' then [(person_id, topic)]
           else if phase = ''score'' \<and> status e = ''filter_complete'' then [(person_id, topic)]
           else [])
          @ get_pending_pairs st phase rest)"

text \<open>
  \<open>mark_filter_complete\<close>: the entry is replaced by a new dict of four fields; the score
  batch ids are read from the old entry (\<open>[]\<close> when there is no entry or no such field).
  \<open>now\<close> is the value of \<open>datetime.now().isoformat()\<close>.
\<close>

definition mark_filter_complete ::
  "job_status \<Rightarrow> int \<Rightarrow> string \<Rightarrow> string list \<Rightarrow> string \<Rightarrow> job_status" where
  "mark_filter_complete st person_id topic batch_job_ids now =
     (let key = make_key person_id topic in
      st(key \<mapsto>
        \<lparr>status = ''filter_complete'',
         filter_batch_job_ids = Some batch_job_ids,
         filter_completed_at = Some now,
         score_batch_job_ids =
           Some (case st key of
                   None \<Rightarrow> []
                 | Some e \<Rightarrow> (case score_batch_job_ids e of None \<Rightarrow> [] | Some ids \<Rightarrow> ids)),
         score_completed_at = None\<rparr>))"

text \<open>
  \<open>mark_score_complete\<close>: a missing entry is first created as \<open>{"status": "pending"}\<close>,
  then three fields of the entry are assigned.
\<close>

definition mark_score_complete ::
  "job_status \<Rightarrow> int \<Rightarrow> string \<Rightarrow> string list \<Rightarrow> string \<Rightarrow> job_status" where
  "mark_score_complete st person_id topic batch_job_ids now =
     (let key = make_key person_id topic;
          e = (case st key of None \<Rightarrow> pending_entry | Some e0 \<Rightarrow> e0)
      in st(key \<mapsto>
           e\<lparr>status := ''score_complete'',
             score_batch_job_ids := Some batch_job_ids,
             score_completed_at := Some now\<rparr>))"

text \<open>\<open>is_pair_complete\<close>.\<close>

definition is_pair_complete :: "job_status \<Rightarrow> int \<Rightarrow> string \<Rightarrow> string \<Rightarrow> bool" where
  "is_pair_complete st person_id topic phase =
     (case st (make_key person_id topic) of
        None \<Rightarrow> False
      | Some e \<Rightarrow>
          (if phase = ''filter'' then status e \<in> {''filter_complete'', ''score_complete''}
           else if phase = ''score'' then status e = ''score_complete''
           else False))"

text \<open>
  \<open>reset_pairs\<close>: the loop over the pairs. \<open>phase\<close> is \<open>Optional[str]\<close>; a phase that is
  neither \<open>"filter"\<close>, \<open>None\<close> nor \<open>"score"\<close> changes nothing.
\<close>

definition reset_one :: "job_status \<Rightarrow> string \<Rightarrow> string option \<Rightarrow> job_status" where
  "reset_one st key phase =
     (if phase = Some ''filter'' \<or> phase = None then st(key \<mapsto> pending_entry)
      else if phase = Some ''score'' then
        (case st key of
           None \<Rightarrow> st
         | Some e \<Rightarrow>
             (if status e = ''score_complete'' then st(key \<mapsto> e\<lparr>status := ''filter_complete''\<rparr>)
              else st))
      else st)"

fun reset_pairs :: "job_status \<Rightarrow> (int \<times> string) list \<Rightarrow> string option \<Rightarrow> job_status" where
  "reset_pairs st [] phase = st"
| "reset_pairs st ((person_id, topic) # rest) phase =
     reset_pairs (reset_one st (make_key person_id topic) phase) rest phase"

text \<open>
  The state of a work item as the store sees it: the stored status, and \<open>pending\<close> for an
  item with no entry (\<open>get_pending_pairs\<close> treats a missing entry as needing the filter
  phase).
\<close>

definition item_state :: "job_status \<Rightarrow> int \<Rightarrow> string \<Rightarrow> string" where
  "item_state st person_id topic =
     (case st (make_key person_id topic) of None \<Rightarrow> ''pending'' | Some e \<Rightarrow> status e)"

text \<open>
  The three mutating operations of the store as values, so that a run of the store is a
  list of operations. The last argument of the two completion marks is the timestamp.
\<close>

datatype tracker_op =
    MarkFilterComplete int string "string list" string
  | MarkScoreComplete int string "string list" string
  | ResetPairs "(int \<times> string) list" "string option"

fun apply_op :: "job_status \<Rightarrow> tracker_op \<Rightarrow> job_status" where
  "apply_op st (MarkFilterComplete person_id topic ids now) =
     mark_filter_complete st person_id topic ids now"
| "apply_op st (MarkScoreComplete person_id topic ids now) =
     mark_score_complete st person_id topic ids now"
| "apply_op st (ResetPairs pairs phase) = reset_pairs st pairs phase"

text \<open>
  The documented rule for one step of one item, in the words of the specification: the
  state stays, or moves forward by one phase on the completion mark of that phase, or
  moves backward on a reset (\<open>score_complete\<close> to \<open>filter_complete\<close> for phase
  \<open>score\<close>, anything to \<open>pending\<close> for phase \<open>filter\<close> or no phase).
\<close>

fun documented_step :: "tracker_op \<Rightarrow> string \<Rightarrow> string \<Rightarrow> bool" where
  "documented_step (MarkFilterComplete person_id topic ids now) s s' =
     (s' = s \<or> (s = ''pending'' \<and> s' = ''filter_complete''))"
| "documented_step (MarkScoreComplete person_id topic ids now) s s' =
     (s' = s \<or> (s = ''filter_complete'' \<and> s' = ''score_complete''))"
| "documented_step (ResetPairs pairs phase) s s' =
     (s' = s \<or>
      (if phase = Some ''score'' then s = ''score_complete'' \<and> s' = ''filter_complete''
       else (phase = Some ''filter'' \<or> phase = None) \<and> s' = ''pending''))"

text \<open>A run follows the documented rule for an item when each of its steps does.\<close>

fun follows_rule :: "job_status \<Rightarrow> tracker_op list \<Rightarrow> int \<Rightarrow> string \<Rightarrow> bool" where
  "follows_rule st [] person_id topic = True"
| "follows_rule st (x # xs) person_id topic =
     (documented_step x (item_state st person_id topic)
        (item_state (apply_op st x) person_id topic)
      \<and> follows_rule (apply_op st x) xs person_id topic)"

text \<open>
  The pipelines mark a phase complete only for pairs that \<open>get_pending_pairs\<close> returned
  for that phase, possibly once per batch of the pair: the filter mark reaches items that
  are \<open>pending\<close> or already \<open>filter_complete\<close>, the score mark items that are
  \<open>filter_complete\<close> or already \<open>score_complete\<close>.
\<close>

fun admitted :: "job_status \<Rightarrow> tracker_op \<Rightarrow> bool" where
  "admitted st (MarkFilterComplete person_id topic ids now) =
     (item_state st person_id topic = ''pending''
      \<or> item_state st person_id topic = ''filter_complete'')"
| "admitted st (MarkScoreComplete person_id topic ids now) =
     (item_state st person_id topic = ''filter_complete''
      \<or> item_state st person_id topic = ''score_complete'')"
| "admitted st (ResetPairs pairs phase) = True"

fun admitted_run :: "job_status \<Rightarrow> tracker_op list \<Rightarrow> bool" where
  "admitted_run st [] = True"
| "admitted_run st (x # xs) = (admitted st x \<and> admitted_run (apply_op st x) xs)"

section \<open>JSON values and string primitives\<close>

text \<open>
  The values that \<open>json.load\<close> and \<open>json.loads\<close> return and that the modules keep in
  their dicts. A dict is an association list read with \<open>map_of\<close>. Python floats are kept
  as exact rationals: no property proved below depends on floating-point rounding.
\<close>

datatype json =
    JNull
  | JBool bool
  | JInt int
  | JNum rat
  | JStr string
  | JArr "json list"
  | JObj "(string \<times> json) list"

text \<open>The exceptions of the modelled code, one constructor per exception and place.\<close>

datatype error =
    ValueError_not_completed
  | ValueError_no_output_file
  | ValueError_remove
  | ValueError_int
  | JSONDecodeError
  | KeyError
  | IndexError
  | TypeError
  | AttributeError
  | FileNotFoundError
  | APIError

text \<open>Truth value of a JSON value, as \<open>bool(v)\<close> computes it.\<close>

fun truthy :: "json \<Rightarrow> bool" where
  "truthy JNull = False"
| "truthy (JBool b) = b"
| "truthy (JInt n) = (n \<noteq> 0)"
| "truthy (JNum r) = (r \<noteq> 0)"
| "truthy (JStr s) = (s \<noteq> [])"
| "truthy (JArr vs) = (vs \<noteq> [])"
| "truthy (JObj kvs) = (kvs \<noteq> [])"

text \<open>\<open>d.get(k)\<close>, \<open>d[k]\<close> and \<open>x[0]\<close> on a value that came out of JSON.\<close>

fun py_get :: "json \<Rightarrow> string \<Rightarrow> error + json option" where
  "py_get (JObj kvs) k = Inr (map_of kvs k)"
| "py_get v k = Inl AttributeError"

fun py_getitem :: "json \<Rightarrow> string \<Rightarrow> error + json" where
  "py_getitem (JObj kvs) k = (case map_of kvs k of None \<Rightarrow> Inl KeyError | Some v \<Rightarrow> Inr v)"
| "py_getitem v k = Inl TypeError"

fun py_getitem0 :: "json \<Rightarrow> error + json" where
  "py_getitem0 (JArr []) = Inl IndexError"
| "py_getitem0 (JArr (v # vs)) = Inr v"
| "py_getitem0 (JStr []) = Inl IndexError"
| "py_getitem0 (JStr (c # cs)) = Inr (JStr [c])"
| "py_getitem0 (JObj kvs) = Inl KeyError"
| "py_getitem0 v = Inl TypeError"

text \<open>
  \<open>str.strip()\<close>, \<open>str.split(sep)\<close> for a separator of one character,
  \<open>str.startswith\<close> and \<open>int(s)\<close>. Strings are lists of 8-bit characters, so
  \<open>py_isspace\<close> is the ASCII part of \<open>str.isspace\<close>, and \<open>py_int\<close> reads an optional sign
  and ASCII digits (the strings it is given come from a split at underscores, so the
  underscore separators that \<open>int\<close> accepts between digits do not occur).
\<close>

definition py_isspace :: "char \<Rightarrow> bool" where
  "py_isspace c = (c \<in> {CHR 0x09, CHR 0x0A, CHR 0x0B, CHR 0x0C, CHR 0x0D,
                         CHR 0x1C, CHR 0x1D, CHR 0x1E, CHR 0x1F, CHR '' ''})"

definition strip :: "string \<Rightarrow> string" where
  "strip s = rev (dropWhile py_isspace (rev (dropWhile py_isspace s)))"

fun split_on :: "char \<Rightarrow> string \<Rightarrow> string list" where
  "split_on sep [] = [[]]"
| "split_on sep (c # cs) =
     (if c = sep then [] # split_on sep cs
      else (case split_on sep cs of
              [] \<Rightarrow> [[c]]
            | l # ls \<Rightarrow> (c # l) # ls))"

definition startswith :: "string \<Rightarrow> string \<Rightarrow> bool" where
  "startswith s pre = (take (length pre) s = pre)"

definition digit_val :: "char \<Rightarrow> nat option" where
  "digit_val =
     map_of [(CHR ''0'', 0), (CHR ''1'', 1), (CHR ''2'', 2), (CHR ''3'', 3), (CHR ''4'', 4),
             (CHR ''5'', 5), (CHR ''6'', 6), (CHR ''7'', 7), (CHR ''8'', 8), (CHR ''9'', 9)]"

fun digits_val :: "nat \<Rightarrow> string \<Rightarrow> nat option" where
  "digits_val acc [] = Some acc"
| "digits_val acc (c # cs) =
     (case digit_val c of None \<Rightarrow> None | Some d \<Rightarrow> digits_val (10 * acc + d) cs)"

definition py_int :: "string \<Rightarrow> int option" where
  "py_int s =
     (let t = strip s;
          neg = (t \<noteq> [] \<and> hd t = CHR ''-'');
          ds = (if t \<noteq> [] \<and> (hd t = CHR ''-'' \<or> hd t = CHR ''+'') then tl t else t)
      in if ds = [] then None
         else (case digits_val 0 ds of
                 None \<Rightarrow> None
               | Some n \<Rightarrow> Some (if neg then - int n else int n)))"

text \<open>The newline character.\<close>

definition nl :: char where
  "nl = CHR 0x0A"

section \<open>batch_manager.py\<close>

text \<open>
  The manager keeps three ledgers in memory (\<open>_batch_jobs\<close>, \<open>_costs\<close>,
  \<open>_failed_speeches\<close>) and writes each to its file with the \<open>_save_\<close> methods; the
  \<open>saved_\<close> fields are the contents of the files. A batch job and a metadata dict are
  dicts from field names to JSON values.
\<close>

type_synonym metadata = "string \<rightharpoonup> json"

record request_counts =
  rc_total :: int
  rc_completed :: int
  rc_failed :: int

record cost_entry =
  ce_timestamp :: string
  ce_requests :: request_counts
  ce_metadata :: metadata

record failed_speech =
  fs_request :: json
  fs_metadata :: metadata
  fs_timestamp :: string

record batch_manager =
  batch_jobs :: "string \<rightharpoonup> metadata"
  costs :: "string \<rightharpoonup> cost_entry"
  failed_speeches :: "failed_speech list"
  saved_batch_jobs :: "string \<rightharpoonup> metadata"
  saved_costs :: "string \<rightharpoonup> cost_entry"
  saved_failed_speeches :: "failed_speech list"

text \<open>The batch object that \<open>client.batches.retrieve\<close> returns, as far as the code reads it.\<close>

record batch_obj =
  b_status :: string
  b_request_counts :: "request_counts option"
  b_output_file_id :: "string option"

text \<open>
  \<open>create_batch\<close>. The answer of the service to the upload and the creation is a
  parameter: the file id and the batch id, or a failure of one of the two calls. \<open>now\<close>
  is \<open>datetime.now().isoformat()\<close>. The request file written to the cache directory is
  read by nobody and is left out.
\<close>

datatype create_reply = Created string string | CreateFails

definition create_batch ::
  "create_reply \<Rightarrow> string \<Rightarrow> json list \<Rightarrow> metadata \<Rightarrow> batch_manager
     \<Rightarrow> error + (string \<times> batch_manager)" where
  "create_batch reply now requests md bm =
     (case reply of
        CreateFails \<Rightarrow> Inl APIError
      | Created file_id batch_id \<Rightarrow>
          (let jobs = (batch_jobs bm)(batch_id \<mapsto>
                 md ++ [''submitted_at'' \<mapsto> JStr now,
                        ''status'' \<mapsto> JStr ''submitted'',
                        ''request_count'' \<mapsto> JInt (int (length requests)),
                        ''file_id'' \<mapsto> JStr file_id])
           in Inr (batch_id, bm\<lparr>batch_jobs := jobs, saved_batch_jobs := jobs\<rparr>)))"

text \<open>
  \<open>retry_failed_requests\<close>. \<open>metadata\<close> is the caller's dict: the function assigns
  \<open>retry_attempt\<close> in it, so the dict after the call is returned with the result. The
  result is \<open>None\<close> when the function gives up and the new batch id otherwise. Comparing a
  stored attempt that is not a number with \<open>max_attempts\<close> raises \<open>TypeError\<close>; an
  exception of \<open>create_batch\<close> leaves the function.
\<close>

definition retry_failed_requests ::
  "create_reply \<Rightarrow> string \<Rightarrow> json list \<Rightarrow> metadata \<Rightarrow> int \<Rightarrow> batch_manager
     \<Rightarrow> error + (string option \<times> metadata \<times> batch_manager)" where
  "retry_failed_requests reply now failed_requests md max_attempts bm =
     (let attempt = (case md ''retry_attempt'' of None \<Rightarrow> JInt 0 | Some v \<Rightarrow> v);
          give_up =
            (let ledger = failed_speeches bm
                   @ map (\<lambda>req. \<lparr>fs_request = req, fs_metadata = md, fs_timestamp = now\<rparr>)
                       failed_requests
             in Inr (None, md, bm\<lparr>failed_speeches := ledger, saved_failed_speeches := ledger\<rparr>));
          resubmit = (\<lambda>next_attempt.
            (let md' = md(''retry_attempt'' \<mapsto> next_attempt)
             in case create_batch reply now failed_requests md' bm of
                  Inl e \<Rightarrow> Inl e
                | Inr (batch_id, bm') \<Rightarrow> Inr (Some batch_id, md', bm')))
      in case attempt of
           JInt n \<Rightarrow> if n \<ge> max_attempts then give_up else resubmit (JInt (n + 1))
         | JBool b \<Rightarrow> if of_bool b \<ge> max_attempts then give_up else resubmit (JInt (of_bool b + 1))
         | JNum r \<Rightarrow> if r \<ge> of_int max_attempts then give_up else resubmit (JNum (r + 1))
         | _ \<Rightarrow> Inl TypeError)"

text \<open>
  The scenario of repeated retries: one call per element of the list (the answer of the
  service and the timestamp of that call), each call receiving the metadata dict and the
  manager that the call before left. The results of the calls are collected in order.
\<close>

fun retry_carrying_forward ::
  "(create_reply \<times> string) list \<Rightarrow> json list \<Rightarrow> metadata \<Rightarrow> int \<Rightarrow> batch_manager
     \<Rightarrow> error + (string option list \<times> metadata \<times> batch_manager)" where
  "retry_carrying_forward [] failed_requests md max_attempts bm = Inr ([], md, bm)"
| "retry_carrying_forward ((reply, now) # rest) failed_requests md max_attempts bm =
     (case retry_failed_requests reply now failed_requests md max_attempts bm of
        Inl e \<Rightarrow> Inl e
      | Inr (r, md', bm') \<Rightarrow>
          (case retry_carrying_forward rest failed_requests md' max_attempts bm' of
             Inl e \<Rightarrow> Inl e
           | Inr (rs, md'', bm'') \<Rightarrow> Inr (r # rs, md'', bm'')))"

text \<open>
  \<open>retrieve_results\<close>. The client is two functions: \<open>batches.retrieve\<close> and the decoded
  content of a file, each \<open>None\<close> when the call raises. \<open>loads\<close> is \<open>json.loads\<close>, \<open>None\<close>
  when it raises \<open>JSONDecodeError\<close>.
\<close>

record client =
  batches_retrieve :: "string \<Rightarrow> batch_obj option"
  files_content :: "string \<Rightarrow> string option"

fun parse_jsonl :: "(string \<Rightarrow> json option) \<Rightarrow> string list \<Rightarrow> error + json list" where
  "parse_jsonl loads [] = Inr []"
| "parse_jsonl loads (line # rest) =
     (if line \<noteq> [] then
        (case loads line of
           None \<Rightarrow> Inl JSONDecodeError
         | Some v \<Rightarrow>
             (case parse_jsonl loads rest of Inl e \<Rightarrow> Inl e | Inr vs \<Rightarrow> Inr (v # vs)))
      else parse_jsonl loads rest)"

definition retrieve_results ::
  "client \<Rightarrow> (string \<Rightarrow> json option) \<Rightarrow> string \<Rightarrow> error + json list" where
  "retrieve_results cl loads batch_id =
     (case batches_retrieve cl batch_id of
        None \<Rightarrow> Inl APIError
      | Some batch \<Rightarrow>
          if b_status batch \<noteq> ''completed'' then Inl ValueError_not_completed
          else (case b_output_file_id batch of
                  None \<Rightarrow> Inl ValueError_no_output_file
                | Some file_id \<Rightarrow>
                    if file_id = [] then Inl ValueError_no_output_file
                    else (case files_content cl file_id of
                            None \<Rightarrow> Inl APIError
                          | Some content \<Rightarrow> parse_jsonl loads (split_on nl (strip content)))))"

text \<open>\<open>sep.join(parts)\<close>.\<close>

fun py_join :: "string \<Rightarrow> string list \<Rightarrow> string" where
  "py_join sep [] = []"
| "py_join sep [p] = p"
| "py_join sep (p # q # ps) = p @ sep @ py_join sep (q # ps)"

text \<open>
  \<open>poll_batches\<close>. What the outside world answers is a parameter: the answer of
  \<open>client.batches.retrieve\<close> to the k-th call of the run (\<open>None\<close> when the call raises),
  the timestamp taken during that call, whether \<open>_save_costs\<close> can write its file during
  that call, and the clock read at the start of each round. The write of the cost ledger
  is the one file operation inside the \<open>try\<close>; the write of the batch ledger at the end of
  a round is taken to succeed. The progress bar and the sleep between rounds have no
  effect on the result and are left out.
\<close>

record poll_env =
  retrieve :: "nat \<Rightarrow> string \<Rightarrow> batch_obj option"
  now_iso :: "nat \<Rightarrow> string"
  costs_writable :: "nat \<Rightarrow> bool"
  clock :: "nat \<Rightarrow> rat"

text \<open>
  The variables of the loop: the manager, the dict \<open>completed\<close>, the list \<open>remaining\<close>,
  the number of calls made to the service so far, and \<open>last_full_poll\<close>.
\<close>

record poll_state =
  ps_manager :: batch_manager
  ps_completed :: "string \<rightharpoonup> string"
  ps_remaining :: "string list"
  ps_calls :: nat
  ps_last_full_poll :: rat

definition terminal_statuses :: "string list" where
  "terminal_statuses = [''completed'', ''failed'', ''expired'', ''cancelled'']"

text \<open>\<open>self._batch_jobs[batch_id][field] = value\<close>, guarded by \<open>batch_id in self._batch_jobs\<close>.\<close>

definition set_job_field :: "string \<Rightarrow> string \<Rightarrow> json \<Rightarrow> batch_manager \<Rightarrow> batch_manager" where
  "set_job_field batch_id field v bm =
     (case batch_jobs bm batch_id of
        None \<Rightarrow> bm
      | Some job \<Rightarrow> bm\<lparr>batch_jobs := (batch_jobs bm)(batch_id \<mapsto> job(field \<mapsto> v))\<rparr>)"

text \<open>
  \<open>_track_batch_cost\<close>: the entry is put into \<open>_costs\<close>, then the ledger is written. The
  result is \<open>Inl\<close> with the manager as it is when the write raises.
\<close>

definition track_batch_cost ::
  "bool \<Rightarrow> string \<Rightarrow> string \<Rightarrow> request_counts \<Rightarrow> batch_manager \<Rightarrow> batch_manager + batch_manager" where
  "track_batch_cost writable now batch_id usage bm =
     (let entry = \<lparr>ce_timestamp = now,
                   ce_requests = \<lparr>rc_total = rc_total usage, rc_completed = rc_completed usage,
                                  rc_failed = rc_failed usage\<rparr>,
                   ce_metadata = (case batch_jobs bm batch_id of None \<Rightarrow> Map.empty | Some job \<Rightarrow> job)\<rparr>;
          bm' = bm\<lparr>costs := (costs bm)(batch_id \<mapsto> entry)\<rparr>
      in if writable then Inr (bm'\<lparr>saved_costs := costs bm'\<rparr>) else Inl bm')"

text \<open>
  The body of the \<open>try\<close> for one batch id. \<open>Inr\<close> is the state when the body ends
  normally; \<open>Inl\<close> is the state at the point where an exception is raised, which the
  \<open>except\<close> clause then receives. The exceptions are: the call to the service raises;
  the batch has no request counts; \<open>remaining.remove\<close> does not find the id; the cost
  ledger cannot be written.
\<close>

definition try_body :: "poll_env \<Rightarrow> string \<Rightarrow> poll_state \<Rightarrow> poll_state + poll_state" where
  "try_body env batch_id s =
     (let k = ps_calls s;
          s0 = s\<lparr>ps_calls := Suc k\<rparr>
      in case retrieve env k batch_id of
           None \<Rightarrow> Inl s0
         | Some batch \<Rightarrow>
             (case b_request_counts batch of
                None \<Rightarrow> Inl s0
              | Some counts \<Rightarrow>
                  (let st = b_status batch;
                       s1 = s0\<lparr>ps_manager := set_job_field batch_id ''status'' (JStr st) (ps_manager s0)\<rparr>
                   in if st \<in> set terminal_statuses then
                        (let s2 = s1\<lparr>ps_completed := (ps_completed s1)(batch_id \<mapsto> st)\<rparr>
                         in if batch_id \<notin> set (ps_remaining s2) then Inl s2
                            else
                              (let s3 = s2\<lparr>ps_remaining := remove1 batch_id (ps_remaining s2)\<rparr>;
                                   s4 = s3\<lparr>ps_manager :=
                                          set_job_field batch_id ''completed_at'' (JStr (now_iso env k))
                                            (ps_manager s3)\<rparr>
                               in if st = ''completed'' then
                                    (case track_batch_cost (costs_writable env k) (now_iso env k)
                                            batch_id counts (ps_manager s4) of
                                       Inl bm \<Rightarrow> Inl (s4\<lparr>ps_manager := bm\<rparr>)
                                     | Inr bm \<Rightarrow> Inr (s4\<lparr>ps_manager := bm\<rparr>))
                                  else Inr s4))
                      else Inr s1)))"

text \<open>
  The \<open>except\<close> clause: the id is recorded with the status \<open>error\<close> and removed from
  \<open>remaining\<close>. When the id is no longer in the list, \<open>remove\<close> raises \<open>ValueError\<close>
  inside the handler, and that exception leaves \<open>poll_batches\<close>.
\<close>

definition except_clause :: "string \<Rightarrow> poll_state \<Rightarrow> error + poll_state" where
  "except_clause batch_id s =
     (if batch_id \<in> set (ps_remaining s) then
        Inr (s\<lparr>ps_completed := (ps_completed s)(batch_id \<mapsto> ''error''),
               ps_remaining := remove1 batch_id (ps_remaining s)\<rparr>)
      else Inl ValueError_remove)"

definition poll_one :: "poll_env \<Rightarrow> string \<Rightarrow> poll_state \<Rightarrow> error + poll_state" where
  "poll_one env batch_id s =
     (case try_body env batch_id s of
        Inr s' \<Rightarrow> Inr s'
      | Inl s' \<Rightarrow> except_clause batch_id s')"

text \<open>\<open>for batch_id in list(remaining)\<close>: the loop over the copy of the list.\<close>

fun poll_each :: "poll_env \<Rightarrow> string list \<Rightarrow> poll_state \<Rightarrow> error + poll_state" where
  "poll_each env [] s = Inr s"
| "poll_each env (batch_id # rest) s =
     (case poll_one env batch_id s of
        Inl e \<Rightarrow> Inl e
      | Inr s' \<Rightarrow> poll_each env rest s')"

text \<open>One round of the \<open>while\<close> loop; \<open>r\<close> is the number of the round.\<close>

definition poll_round :: "poll_env \<Rightarrow> int \<Rightarrow> nat \<Rightarrow> poll_state \<Rightarrow> error + poll_state" where
  "poll_round env interval r s =
     (let current_time = clock env r;
          should_full_poll = (current_time - ps_last_full_poll s \<ge> of_int interval)
      in case poll_each env (ps_remaining s) s of
           Inl e \<Rightarrow> Inl e
         | Inr s' \<Rightarrow>
             Inr (if should_full_poll then
                    s'\<lparr>ps_manager := (ps_manager s')\<lparr>saved_batch_jobs := batch_jobs (ps_manager s')\<rparr>,
                       ps_last_full_poll := current_time\<rparr>
                  else s'))"

text \<open>
  \<open>while remaining:\<close> with a bound on the number of rounds. \<open>None\<close> means that the
  rounds allowed were used up with ids still outstanding; \<open>Some (Inl e)\<close> that the
  exception \<open>e\<close> left the loop; \<open>Some (Inr s)\<close> that the loop ended in the state \<open>s\<close>.
\<close>

fun poll_loop :: "nat \<Rightarrow> poll_env \<Rightarrow> int \<Rightarrow> nat \<Rightarrow> poll_state \<Rightarrow> (error + poll_state) option" where
  "poll_loop 0 env interval r s = (if ps_remaining s = [] then Some (Inr s) else None)"
| "poll_loop (Suc fuel) env interval r s =
     (if ps_remaining s = [] then Some (Inr s)
      else (case poll_round env interval r s of
              Inl e \<Rightarrow> Some (Inl e)
            | Inr s' \<Rightarrow> poll_loop fuel env interval (Suc r) s'))"

definition poll_start :: "string list \<Rightarrow> batch_manager \<Rightarrow> poll_state" where
  "poll_start batch_ids bm =
     \<lparr>ps_manager = bm, ps_completed = Map.empty, ps_remaining = batch_ids, ps_calls = 0,
      ps_last_full_poll = 0\<rparr>"

definition poll_batches ::
  "nat \<Rightarrow> poll_env \<Rightarrow> string list \<Rightarrow> int \<Rightarrow> batch_manager
     \<Rightarrow> (error + (string \<rightharpoonup> string) \<times> batch_manager) option" where
  "poll_batches fuel env batch_ids interval bm =
     (case poll_loop fuel env interval 0 (poll_start batch_ids bm) of
        None \<Rightarrow> None
      | Some (Inl e) \<Rightarrow> Some (Inl e)
      | Some (Inr s) \<Rightarrow> Some (Inr (ps_completed s, ps_manager s)))"

text \<open>
  An answer of the service settles an id when it is an exception, a batch without request
  counts, or a terminal status. The service settles the ids from call \<open>K\<close> on when every
  answer from the \<open>K\<close>-th call on does.
\<close>

definition settles :: "batch_obj option \<Rightarrow> bool" where
  "settles a =
     (case a of
        None \<Rightarrow> True
      | Some batch \<Rightarrow> b_request_counts batch = None \<or> b_status batch \<in> set terminal_statuses)"

definition settled_from :: "poll_env \<Rightarrow> nat \<Rightarrow> string list \<Rightarrow> bool" where
  "settled_from env K batch_ids =
     (\<forall>k \<ge> K. \<forall>b \<in> set batch_ids. settles (retrieve env k b))"

section \<open>filter_pipeline.py: the intermediate files\<close>

text \<open>
  A row of an intermediate file, and the directory of intermediate files: a map from the
  file name to the rows written after the header line. A file that does not exist is
  \<open>None\<close>; every file of the directory is created by \<open>_save_filtered_speeches\<close> and
  starts with the header.
\<close>

record filtered_row =
  fr_Id :: int
  fr_Text :: string
  fr_RelevanceScore :: json

type_synonym intermediate_dir = "string \<rightharpoonup> filtered_row list"

definition filtered_csv_name :: "int \<Rightarrow> string \<Rightarrow> string" where
  "filtered_csv_name person_id topic = str_int person_id @ ''_'' @ topic @ ''_filtered.csv''"

text \<open>
  \<open>_save_filtered_speeches\<close>: the file is opened in append mode; the header is written
  when the file did not exist; the rows are written after what the file holds.
\<close>

definition save_filtered_speeches ::
  "intermediate_dir \<Rightarrow> int \<Rightarrow> string \<Rightarrow> filtered_row list \<Rightarrow> intermediate_dir" where
  "save_filtered_speeches dir person_id topic speeches =
     (let csv_path = filtered_csv_name person_id topic
      in case dir csv_path of
           None \<Rightarrow> dir(csv_path \<mapsto> speeches)
         | Some rows \<Rightarrow> dir(csv_path \<mapsto> rows @ speeches))"

text \<open>The rows of the intermediate artifact of a work item (none when there is no file).\<close>

definition artifact_rows :: "intermediate_dir \<Rightarrow> int \<Rightarrow> string \<Rightarrow> filtered_row list" where
  "artifact_rows dir person_id topic =
     (case dir (filtered_csv_name person_id topic) of None \<Rightarrow> [] | Some rows \<Rightarrow> rows)"

section \<open>score_pipeline.py\<close>

text \<open>
  \<open>_build_scoring_request\<close>. \<open>int(include_reasoning)\<close> is 1 or 0. The temperature 0.3 is
  the rational 3/10.
\<close>

definition scoring_custom_id :: "int \<Rightarrow> bool \<Rightarrow> string" where
  "scoring_custom_id speech_id include_reasoning =
     ''score_'' @ str_int speech_id @ ''_'' @ str_int (if include_reasoning then 1 else 0)"

definition scoring_user_message :: "string \<Rightarrow> string \<Rightarrow> string \<Rightarrow> bool \<Rightarrow> string" where
  "scoring_user_message text topic scoring_prompt include_reasoning =
     ''Speech Text:'' @ [nl] @ text @ [nl, nl]
     @ ''Topic: '' @ topic @ [nl, nl]
     @ scoring_prompt
     @ (if include_reasoning
        then [nl] @ ''Also provide a one-sentence reasoning for your score.'' else [])
     @ [nl, nl] @ ''Respond with JSON only, format:'' @ [nl] @ ''{'' @ [nl]
     @ ''  \"stance_score\": 1-10''
     @ (if include_reasoning then '', \"reasoning\": \"one sentence\"'' else [])
     @ [nl] @ ''}''"

definition build_scoring_request :: "int \<Rightarrow> string \<Rightarrow> string \<Rightarrow> string \<Rightarrow> bool \<Rightarrow> json" where
  "build_scoring_request speech_id text topic scoring_prompt include_reasoning =
     JObj [(''custom_id'', JStr (scoring_custom_id speech_id include_reasoning)),
           (''method'', JStr ''POST''),
           (''url'', JStr ''/v1/chat/completions''),
           (''body'', JObj
              [(''model'', JStr ''gpt-4o-mini''),
               (''messages'', JArr
                  [JObj [(''role'', JStr ''system''),
                         (''content'', JStr (''You are a political speech analyst. Score stance on topics from 1 (strongly opposes) to 10 (strongly supports). Respond with JSON only.''))],
                   JObj [(''role'', JStr ''user''),
                         (''content'', JStr (scoring_user_message text topic scoring_prompt
                                               include_reasoning))]]),
               (''response_format'', JObj [(''type'', JStr ''json_object'')]),
               (''temperature'', JNum (3 / 10))])]"

text \<open>A row of the final file of a pair.\<close>

record scored_row =
  sr_Id :: int
  sr_Date :: json
  sr_Topic :: string
  sr_Text :: string
  sr_Rank :: json
  sr_Reasoning :: json

text \<open>
  The steps of \<open>_process_batch_results\<close> for one result. The first group runs before the
  inner \<open>try\<close>: the status code, the custom id and its parts. \<open>Inr None\<close> is
  \<open>continue\<close>; \<open>Inl e\<close> is an exception, which at this place reaches the outer handler.
\<close>

definition status_is_200 :: "json \<Rightarrow> error + bool" where
  "status_is_200 result =
     (case py_get result ''response'' of
        Inl e \<Rightarrow> Inl e
      | Inr r \<Rightarrow>
          (case py_get (case r of None \<Rightarrow> JObj [] | Some v \<Rightarrow> v) ''status_code'' of
             Inl e \<Rightarrow> Inl e
           | Inr code \<Rightarrow> Inr (code = Some (JInt 200) \<or> code = Some (JNum 200))))"

text \<open>
  \<open>custom_id = result.get("custom_id", "")\<close> followed by \<open>startswith\<close>, which only a
  string has.
\<close>

definition result_custom_id :: "json \<Rightarrow> error + string" where
  "result_custom_id result =
     (case py_get result ''custom_id'' of
        Inl e \<Rightarrow> Inl e
      | Inr None \<Rightarrow> Inr []
      | Inr (Some (JStr s)) \<Rightarrow> Inr s
      | Inr (Some v) \<Rightarrow> Inl AttributeError)"

text \<open>
  \<open>speech_id = int(parts[1])\<close> and \<open>has_reasoning = bool(int(parts[2]))\<close> for
  \<open>parts = custom_id.split("_")\<close>.
\<close>

definition custom_id_parts :: "string \<Rightarrow> error + int \<times> bool" where
  "custom_id_parts custom_id =
     (let parts = split_on CHR ''_'' custom_id
      in if length parts < 2 then Inl IndexError
         else (case py_int (parts ! 1) of
                 None \<Rightarrow> Inl ValueError_int
               | Some speech_id \<Rightarrow>
                   if length parts < 3 then Inl IndexError
                   else (case py_int (parts ! 2) of
                           None \<Rightarrow> Inl ValueError_int
                         | Some flag \<Rightarrow> Inr (speech_id, flag \<noteq> 0))))"

text \<open>
  The first lines of the inner \<open>try\<close>:
  \<open>json.loads(result["response"]["body"]["choices"][0]["message"]["content"])\<close>.
  \<open>json.loads\<close> raises \<open>TypeError\<close> for an argument that is not a string.
\<close>

definition score_content :: "(string \<Rightarrow> json option) \<Rightarrow> json \<Rightarrow> error + json" where
  "score_content loads result =
     (case py_getitem result ''response'' of Inl e \<Rightarrow> Inl e | Inr response \<Rightarrow>
      case py_getitem response ''body'' of Inl e \<Rightarrow> Inl e | Inr response_body \<Rightarrow>
      case py_getitem response_body ''choices'' of Inl e \<Rightarrow> Inl e | Inr choices \<Rightarrow>
      case py_getitem0 choices of Inl e \<Rightarrow> Inl e | Inr choice \<Rightarrow>
      case py_getitem choice ''message'' of Inl e \<Rightarrow> Inl e | Inr message \<Rightarrow>
      case py_getitem message ''content'' of Inl e \<Rightarrow> Inl e | Inr content \<Rightarrow>
      (case content of
         JStr s \<Rightarrow> (case loads s of None \<Rightarrow> Inl JSONDecodeError | Some v \<Rightarrow> Inr v)
       | _ \<Rightarrow> Inl TypeError))"

text \<open>
  \<open>_get_speech_text_from_csv\<close>: the text of the first row with the id, \<open>""\<close> when no row
  has it; opening a file that does not exist raises.
\<close>

definition get_speech_text_from_csv :: "filtered_row list option \<Rightarrow> int \<Rightarrow> error + string" where
  "get_speech_text_from_csv file speech_id =
     (case file of
        None \<Rightarrow> Inl FileNotFoundError
      | Some rows \<Rightarrow>
          (case find (\<lambda>row. fr_Id row = speech_id) rows of
             None \<Rightarrow> Inr []
           | Some row \<Rightarrow> Inr (fr_Text row)))"

text \<open>
  The body of the inner \<open>try\<close>. \<open>speech_date\<close> is the database: the date of a speech,
  \<open>None\<close> when \<open>get_speech_metadata\<close> finds no row.
\<close>

definition score_row_body ::
  "(string \<Rightarrow> json option) \<Rightarrow> (int \<Rightarrow> json option) \<Rightarrow> filtered_row list option \<Rightarrow> string
     \<Rightarrow> json \<Rightarrow> int \<Rightarrow> bool \<Rightarrow> error + scored_row option" where
  "score_row_body loads speech_date file topic result speech_id has_reasoning =
     (case score_content loads result of Inl e \<Rightarrow> Inl e | Inr score_data \<Rightarrow>
      case py_get score_data ''stance_score'' of Inl e \<Rightarrow> Inl e | Inr stance_score \<Rightarrow>
      case py_get score_data ''reasoning'' of Inl e \<Rightarrow> Inl e | Inr reasoning \<Rightarrow>
      if stance_score = None \<or> stance_score = Some JNull then Inr None
      else (case speech_date speech_id of
              None \<Rightarrow> Inr None
            | Some date \<Rightarrow>
                (case get_speech_text_from_csv file speech_id of
                   Inl e \<Rightarrow> Inl e
                 | Inr speech_text \<Rightarrow>
                     Inr (Some
                       \<lparr>sr_Id = speech_id, sr_Date = date, sr_Topic = topic,
                        sr_Text = speech_text, sr_Rank = the stance_score,
                        sr_Reasoning =
                          (case reasoning of
                             None \<Rightarrow> JStr []
                           | Some v \<Rightarrow> if has_reasoning \<and> truthy v then v else JStr [])\<rparr>))))"

text \<open>
  One result of the loop. The inner \<open>try\<close> catches \<open>JSONDecodeError\<close>, \<open>KeyError\<close> and
  \<open>ValueError\<close> and goes on with the next result; any other exception leaves the loop.
\<close>

definition caught_inner :: "error \<Rightarrow> bool" where
  "caught_inner e =
     (e \<in> {JSONDecodeError, KeyError, ValueError_int, ValueError_not_completed,
            ValueError_no_output_file, ValueError_remove})"

definition process_score_result ::
  "(string \<Rightarrow> json option) \<Rightarrow> (int \<Rightarrow> json option) \<Rightarrow> filtered_row list option \<Rightarrow> string
     \<Rightarrow> json \<Rightarrow> error + scored_row option" where
  "process_score_result loads speech_date file topic result =
     (case status_is_200 result of Inl e \<Rightarrow> Inl e | Inr ok \<Rightarrow>
      if \<not> ok then Inr None
      else (case result_custom_id result of Inl e \<Rightarrow> Inl e | Inr custom_id \<Rightarrow>
        if \<not> startswith custom_id ''score_'' then Inr None
        else (case custom_id_parts custom_id of Inl e \<Rightarrow> Inl e | Inr (speech_id, has_reasoning) \<Rightarrow>
          (case score_row_body loads speech_date file topic result speech_id has_reasoning of
             Inl e \<Rightarrow> if caught_inner e then Inr None else Inl e
           | Inr row \<Rightarrow> Inr row))))"

text \<open>The loop over the results: the rows collected, or the exception that ended it.\<close>

fun collect_scored ::
  "(string \<Rightarrow> json option) \<Rightarrow> (int \<Rightarrow> json option) \<Rightarrow> filtered_row list option \<Rightarrow> string
     \<Rightarrow> json list \<Rightarrow> error + scored_row list" where
  "collect_scored loads speech_date file topic [] = Inr []"
| "collect_scored loads speech_date file topic (result # rest) =
     (case process_score_result loads speech_date file topic result of
        Inl e \<Rightarrow> Inl e
      | Inr row \<Rightarrow>
          (case collect_scored loads speech_date file topic rest of
             Inl e \<Rightarrow> Inl e
           | Inr rows \<Rightarrow> Inr ((case row of None \<Rightarrow> [] | Some r \<Rightarrow> [r]) @ rows)))"

section \<open>output.py: the aggregation documents\<close>

text \<open>
  The document \<open>mk_data/<person_id>/main.json\<close> of a person and the document
  \<open>topics/<topic>.json\<close> of a topic, which maps \<open>str(person_id)\<close> to the pair
  \<open>[count, average]\<close>. The two directories are maps from the directory name of the person
  and from the file name of the topic.
\<close>

record topic_stat =
  topicName :: string
  ts_count :: int
  ts_average :: rat

record mk_doc =
  mk_id :: int
  mk_knessetSiteId :: int
  mk_name :: string
  mk_imageUrl :: string
  mk_description :: string
  mk_Topics :: "topic_stat list"

record person_metadata =
  pm_name :: string
  pm_faction :: "string option"
  pm_party_name :: "string option"

record output_files =
  mk_json :: "string \<rightharpoonup> mk_doc"
  topic_json :: "string \<rightharpoonup> (string \<rightharpoonup> int \<times> rat)"

text \<open>
  \<open>statistics.mean\<close> of the ranks and \<open>round(average, 2)\<close>, on exact rationals: the mean
  of numbers is their sum over their count, a value that is not a number raises
  \<open>TypeError\<close>, and rounding goes to the nearest hundredth, a tie to the even one.
\<close>

fun py_number :: "json \<Rightarrow> rat option" where
  "py_number (JInt n) = Some (of_int n)"
| "py_number (JNum r) = Some r"
| "py_number (JBool b) = Some (of_bool b)"
| "py_number v = None"

definition py_mean :: "json list \<Rightarrow> rat option" where
  "py_mean ranks =
     (case those (map py_number ranks) of
        None \<Rightarrow> None
      | Some xs \<Rightarrow> Some (sum_list xs / of_nat (length xs)))"

definition py_round2 :: "rat \<Rightarrow> rat" where
  "py_round2 x =
     (let s = x * 100;
          f = \<lfloor>s\<rfloor>;
          d = s - of_int f
      in of_int (if d < 1 / 2 then f else if d > 1 / 2 then f + 1
                 else if even f then f else f + 1) / 100)"

text \<open>\<open>str(v)\<close> of an optional string, as an f-string formats it.\<close>

definition str_opt :: "string option \<Rightarrow> string" where
  "str_opt v = (case v of None \<Rightarrow> ''None'' | Some s \<Rightarrow> s)"

text \<open>
  The loop of \<open>_update_mk_json\<close> over \<open>data["Topics"]\<close>: the first entry of the topic
  gets the new count and average; \<open>None\<close> when no entry has the topic. The parameter
  \<open>cnt\<close> is the \<open>count\<close> of the source.
\<close>

fun update_first_topic :: "string \<Rightarrow> int \<Rightarrow> rat \<Rightarrow> topic_stat list \<Rightarrow> topic_stat list option" where
  "update_first_topic topic cnt average [] = None"
| "update_first_topic topic cnt average (topic_data # rest) =
     (if topicName topic_data = topic
      then Some (topic_data\<lparr>ts_count := cnt, ts_average := py_round2 average\<rparr> # rest)
      else map_option ((#) topic_data) (update_first_topic topic cnt average rest))"

text \<open>
  \<open>_update_mk_json\<close>. \<open>person\<close> is \<open>database.get_person_metadata\<close>. When the document does
  not exist and the database has no metadata, the function returns without writing.
\<close>

definition update_mk_json ::
  "(int \<Rightarrow> person_metadata option) \<Rightarrow> int \<Rightarrow> string \<Rightarrow> int \<Rightarrow> rat \<Rightarrow> output_files \<Rightarrow> output_files" where
  "update_mk_json person person_id topic cnt average out =
     (let key = str_int person_id;
          loaded =
            (case mk_json out key of
               Some data \<Rightarrow> Some data
             | None \<Rightarrow>
                 (case person person_id of
                    None \<Rightarrow> None
                  | Some metadata \<Rightarrow>
                      Some \<lparr>mk_id = person_id, mk_knessetSiteId = person_id,
                            mk_name = pm_name metadata, mk_imageUrl = [],
                            mk_description =
                              ''Faction: '' @ str_opt (pm_faction metadata)
                              @ '', Party: '' @ str_opt (pm_party_name metadata),
                            mk_Topics = []\<rparr>))
      in case loaded of
           None \<Rightarrow> out
         | Some data \<Rightarrow>
             out\<lparr>mk_json := (mk_json out)(key \<mapsto>
                   data\<lparr>mk_Topics :=
                     (case update_first_topic topic cnt average (mk_Topics data) of
                        Some topics \<Rightarrow> topics
                      | None \<Rightarrow>
                          mk_Topics data
                          @ [\<lparr>topicName = topic, ts_count = cnt,
                               ts_average = py_round2 average\<rparr>])\<rparr>)\<rparr>)"

text \<open>\<open>_update_topic_json\<close>.\<close>

definition update_topic_json :: "string \<Rightarrow> int \<Rightarrow> int \<Rightarrow> rat \<Rightarrow> output_files \<Rightarrow> output_files" where
  "update_topic_json topic person_id cnt average out =
     (let json_path = topic @ ''.json'';
          data = (case topic_json out json_path of None \<Rightarrow> Map.empty | Some d \<Rightarrow> d)
      in out\<lparr>topic_json := (topic_json out)(json_path \<mapsto>
               data(str_int person_id \<mapsto> (cnt, py_round2 average)))\<rparr>)"

text \<open>\<open>update_aggregations\<close>.\<close>

definition update_aggregations ::
  "(int \<Rightarrow> person_metadata option) \<Rightarrow> int \<Rightarrow> string \<Rightarrow> scored_row list \<Rightarrow> output_files
     \<Rightarrow> error + output_files" where
  "update_aggregations person person_id topic scored_speeches out =
     (if scored_speeches = [] then Inr out
      else (let cnt = int (length scored_speeches);
                ranks = map sr_Rank scored_speeches
            in case py_mean ranks of
                 None \<Rightarrow> Inl TypeError
               | Some average \<Rightarrow>
                   Inr (update_topic_json topic person_id cnt average
                          (update_mk_json person person_id topic cnt average out))))"

text \<open>
  The statistics stored for a pair: in the document of the person, the count and average
  of the first entry of the topic; in the document of the topic, the pair of the person.
\<close>

definition mk_stat :: "output_files \<Rightarrow> int \<Rightarrow> string \<Rightarrow> (int \<times> rat) option" where
  "mk_stat out person_id topic =
     (case mk_json out (str_int person_id) of
        None \<Rightarrow> None
      | Some data \<Rightarrow>
          map_option (\<lambda>t. (ts_count t, ts_average t))
            (find (\<lambda>t. topicName t = topic) (mk_Topics data)))"

definition topic_stat_of :: "output_files \<Rightarrow> int \<Rightarrow> string \<Rightarrow> (int \<times> rat) option" where
  "topic_stat_of out person_id topic =
     (case topic_json out (topic @ ''.json'') of
        None \<Rightarrow> None
      | Some data \<Rightarrow> data (str_int person_id))"

section \<open>Concrete values for the worked examples\<close>

text \<open>A store with one item in each of the three states.\<close>

definition ex_store :: job_status where
  "ex_store = [make_key 1 ''a'' \<mapsto> pending_entry,
     make_key 2 ''b'' \<mapsto> pending_entry\<lparr>status := ''filter_complete''\<rparr>,
     make_key 3 ''c'' \<mapsto> pending_entry\<lparr>status := ''score_complete''\<rparr>]"


text \<open>A manager with empty ledgers, one failed request, and three clients.\<close>

definition empty_manager :: batch_manager where
  "empty_manager =
     \<lparr>batch_jobs = Map.empty, costs = Map.empty, failed_speeches = [],
      saved_batch_jobs = Map.empty, saved_costs = Map.empty, saved_failed_speeches = []\<rparr>"

definition ex_request :: json where
  "ex_request = JObj [(''custom_id'', JStr ''speech_1'')]"

definition ex_loads :: "string \<Rightarrow> json option" where
  "ex_loads s =
     (if s = ''{}'' then Some (JObj []) else if s = ''[]'' then Some (JArr []) else None)"

definition ex_content :: string where
  "ex_content = ''{}'' @ [nl, nl] @ ''[]'' @ [nl]"

definition ex_client :: "string \<Rightarrow> string option \<Rightarrow> client" where
  "ex_client st out =
     \<lparr>batches_retrieve = (\<lambda>b. Some \<lparr>b_status = st, b_request_counts = None, b_output_file_id = out\<rparr>),
      files_content = (\<lambda>f. Some ex_content)\<rparr>"

text \<open>
  A service that raises for the batch \<open>a\<close> and reports the batch \<open>b\<close> in progress during
  the first two calls and completed afterwards.
\<close>

definition ex_counts :: request_counts where
  "ex_counts = \<lparr>rc_total = 2, rc_completed = 1, rc_failed = 0\<rparr>"

definition ex_env :: poll_env where
  "ex_env =
     \<lparr>retrieve = (\<lambda>k b.
        if b = ''a'' then None
        else Some \<lparr>b_status = (if k < 2 then ''in_progress'' else ''completed''),
                   b_request_counts = Some ex_counts, b_output_file_id = None\<rparr>),
      now_iso = (\<lambda>k. ''2025-01-01T00:00:00''),
      costs_writable = (\<lambda>k. True),
      clock = (\<lambda>r. of_nat r * 5)\<rparr>"

text \<open>A filtered row, no output yet, a database with one person, and two scored rows.\<close>

definition ex_row :: filtered_row where
  "ex_row = \<lparr>fr_Id = 7, fr_Text = ''text of speech 7'', fr_RelevanceScore = JInt 4\<rparr>"

definition empty_output :: output_files where
  "empty_output = \<lparr>mk_json = Map.empty, topic_json = Map.empty\<rparr>"

definition ex_person :: "int \<Rightarrow> person_metadata option" where
  "ex_person p =
     (if p = 42 then Some \<lparr>pm_name = ''A B'', pm_faction = None, pm_party_name = Some ''P''\<rparr>
      else None)"

definition ex_scored :: "scored_row list" where
  "ex_scored =
     [\<lparr>sr_Id = 7, sr_Date = JStr ''2020-01-01'', sr_Topic = ''topicA'', sr_Text = ''t7'',
       sr_Rank = JInt 3, sr_Reasoning = JStr []\<rparr>,
      \<lparr>sr_Id = 8, sr_Date = JStr ''2020-01-02'', sr_Topic = ''topicA'', sr_Text = ''t8'',
       sr_Rank = JInt 4, sr_Reasoning = JStr ''because''\<rparr>]"

text \<open>
  A result of the service for the request of speech 7 with reasoning asked for, whose
  content parses to a score with a rationale.
\<close>

definition ex_result :: "string \<Rightarrow> json" where
  "ex_result custom_id =
     JObj [(''custom_id'', JStr custom_id),
           (''response'', JObj
              [(''status_code'', JInt 200),
               (''body'', JObj
                  [(''choices'', JArr
                      [JObj [(''message'', JObj [(''content'', JStr ''C'')])]])])])]"

definition ex_score_loads :: "string \<Rightarrow> json option" where
  "ex_score_loads s =
     (if s = ''C''
      then Some (JObj [(''stance_score'', JInt 8), (''reasoning'', JStr ''clear support'')])
      else None)"

definition ex_dates :: "int \<Rightarrow> json option" where
  "ex_dates speech_id = (if speech_id = 7 then Some (JStr ''2020-01-01'') else None)"

section \<open>Properties\<close>

subsection \<open>Keys of work items\<close>

lemma digit_char_inj: "d < 10 \<Longrightarrow> d' < 10 \<Longrightarrow> digit_char d = digit_char d' \<Longrightarrow> d = d'"
  unfolding digit_char_def by (simp split: if_splits) arith

lemma digit_char_range: "digit_char d \<in> set ''0123456789''"
  unfolding digit_char_def by simp

lemma str_nat_nonempty: "str_nat n \<noteq> []"
  by (subst str_nat.simps) simp

lemma set_str_nat: "set (str_nat n) \<subseteq> set ''0123456789''"
proof (induction n rule: str_nat.induct)
  case (1 n)
  show ?case
  proof (cases "n < 10")
    case True
    then show ?thesis using digit_char_range [of n] by (subst str_nat.simps) simp
  next
    case False
    then show ?thesis using 1 digit_char_range [of "n mod 10"]
      by (subst str_nat.simps) simp
  qed
qed

lemma str_nat_inj: "str_nat n = str_nat m \<Longrightarrow> n = m"
proof (induction n arbitrary: m rule: str_nat.induct)
  case (1 n)
  show ?case
  proof (cases "n < 10")
    case n: True
    show ?thesis
    proof (cases "m < 10")
      case True
      with n 1(2) show ?thesis
        by (simp add: str_nat.simps [of n] str_nat.simps [of m] digit_char_inj)
    next
      case False
      with n 1(2) str_nat_nonempty [of "m div 10"] show ?thesis
        by (simp add: str_nat.simps [of n] str_nat.simps [of m] Cons_eq_append_conv)
    qed
  next
    case n: False
    show ?thesis
    proof (cases "m < 10")
      case True
      with n 1(2) str_nat_nonempty [of "n div 10"] show ?thesis
        by (simp add: str_nat.simps [of n] str_nat.simps [of m] append_eq_Cons_conv)
    next
      case False
      with n 1(2) have e: "str_nat (n div 10) = str_nat (m div 10)"
        and d: "digit_char (n mod 10) = digit_char (m mod 10)"
        by (simp_all add: str_nat.simps [of n] str_nat.simps [of m])
      from 1(1) [OF n e] have "n div 10 = m div 10" .
      moreover from d have "n mod 10 = m mod 10" by (simp add: digit_char_inj)
      ultimately show ?thesis by (metis div_mult_mod_eq)
    qed
  qed
qed

lemma hd_str_nat_not_minus: "hd (str_nat n) \<noteq> CHR ''-''"
proof -
  have "hd (str_nat n) \<in> set (str_nat n)" using str_nat_nonempty by simp
  with set_str_nat [of n] show ?thesis by auto
qed

lemma str_int_inj: "str_int i = str_int j \<Longrightarrow> i = j"
proof -
  assume e: "str_int i = str_int j"
  show ?thesis
  proof (cases "i < 0")
    case i: True
    show ?thesis
    proof (cases "j < 0")
      case True
      with i e have "str_nat (nat (- i)) = str_nat (nat (- j))" by (simp add: str_int_def)
      then have "nat (- i) = nat (- j)" by (rule str_nat_inj)
      with i True show ?thesis by simp
    next
      case False
      with i e have "CHR ''-'' # str_nat (nat (- i)) = str_nat (nat j)" by (simp add: str_int_def)
      then have "hd (str_nat (nat j)) = CHR ''-''" by (metis list.sel(1))
      with hd_str_nat_not_minus show ?thesis by blast
    qed
  next
    case i: False
    show ?thesis
    proof (cases "j < 0")
      case True
      with i e have "str_nat (nat i) = CHR ''-'' # str_nat (nat (- j))" by (simp add: str_int_def)
      then have "hd (str_nat (nat i)) = CHR ''-''" by (metis list.sel(1))
      with hd_str_nat_not_minus show ?thesis by blast
    next
      case False
      with i e have "str_nat (nat i) = str_nat (nat j)" by (simp add: str_int_def)
      then have "nat i = nat j" by (rule str_nat_inj)
      with i False show ?thesis by simp
    qed
  qed
qed

lemma underscore_notin_str_int: "CHR ''_'' \<notin> set (str_int i)"
  using set_str_nat [of "nat i"] set_str_nat [of "nat (- i)"] by (auto simp: str_int_def)

lemma split_at_first: "x \<notin> set a \<Longrightarrow> x \<notin> set b \<Longrightarrow> a @ x # s = b @ x # t \<Longrightarrow> a = b \<and> s = t"
proof (induction a arbitrary: b)
  case Nil
  then show ?case by (cases b) auto
next
  case (Cons y a)
  then show ?case by (cases b) auto
qed

lemma make_key_inj: "make_key p t = make_key p' t' \<longleftrightarrow> p = p' \<and> t = t'"
proof
  assume "make_key p t = make_key p' t'"
  then have "str_int p @ CHR ''_'' # t = str_int p' @ CHR ''_'' # t'" by (simp add: make_key_def)
  from split_at_first [OF underscore_notin_str_int underscore_notin_str_int this]
  show "p = p' \<and> t = t'" using str_int_inj by blast
qed simp

subsection \<open>Pending pairs\<close>

lemma get_pending_pairs_filter:
  "get_pending_pairs st ''filter'' cands =
     filter (\<lambda>(p, t). case st (make_key p t) of None \<Rightarrow> True | Some e \<Rightarrow> status e = ''pending'') cands"
  by (induction cands) (auto split: option.splits if_splits)

lemma get_pending_pairs_score:
  "get_pending_pairs st ''score'' cands =
     filter (\<lambda>(p, t). case st (make_key p t) of None \<Rightarrow> False | Some e \<Rightarrow> status e = ''filter_complete'') cands"
  by (induction cands) (auto split: option.splits if_splits)

text \<open>
  C2 (pending-set correctness). For every store and every candidate list, the pairs
  pending for \<open>filter\<close> are exactly the candidates with no stored entry or with stored
  status \<open>pending\<close>, and the pairs pending for \<open>score\<close> are exactly the candidates with
  stored status \<open>filter_complete\<close>, both in the order of the candidates. In particular,
  when A is stored as pending, B as filter_complete and C as score_complete, the
  candidates A, B, C give A for \<open>filter\<close> and B for \<open>score\<close>.
\<close>

theorem pending_set_correct:
  "get_pending_pairs st ''filter'' cands =
     filter (\<lambda>(p, t). case st (make_key p t) of None \<Rightarrow> True | Some e \<Rightarrow> status e = ''pending'') cands
   \<and> get_pending_pairs st ''score'' cands =
     filter (\<lambda>(p, t). case st (make_key p t) of None \<Rightarrow> False | Some e \<Rightarrow> status e = ''filter_complete'') cands
   \<and> (item_state st pa ta = ''pending'' \<and> item_state st pb tb = ''filter_complete''
        \<and> item_state st pc tc = ''score_complete'' \<longrightarrow>
      get_pending_pairs st ''filter'' [(pa, ta), (pb, tb), (pc, tc)] = [(pa, ta)]
      \<and> get_pending_pairs st ''score'' [(pa, ta), (pb, tb), (pc, tc)] = [(pb, tb)])"
  by (auto simp: get_pending_pairs_filter get_pending_pairs_score item_state_def
      split: option.splits)

lemma mk1: "make_key 1 ''a'' = ''1_a''" by code_simp
lemma mk2: "make_key 2 ''b'' = ''2_b''" by code_simp
lemma mk3: "make_key 3 ''c'' = ''3_c''" by code_simp

theorem pending_set_correct_witness:
  "get_pending_pairs ex_store ''filter'' [(1, ''a''), (2, ''b''), (3, ''c'')] = [(1, ''a'')]
   \<and> get_pending_pairs ex_store ''score'' [(1, ''a''), (2, ''b''), (3, ''c'')] = [(2, ''b'')]"
  using pending_set_correct [of ex_store "[]" 1 "''a''" 2 "''b''" 3 "''c''"]
  by (simp add: item_state_def ex_store_def mk1 mk2 mk3 pending_entry_def)


subsection \<open>Resetting and marking\<close>

lemma reset_one_other: "k \<noteq> key \<Longrightarrow> reset_one st key phase k = st k"
  by (simp add: reset_one_def split: option.splits)

lemma reset_one_same:
  "reset_one st key phase key =
     (if phase = Some ''filter'' \<or> phase = None then Some pending_entry
      else if phase = Some ''score'' then
        (case st key of
           None \<Rightarrow> None
         | Some e \<Rightarrow> if status e = ''score_complete'' then Some (e\<lparr>status := ''filter_complete''\<rparr>)
                     else Some e)
      else st key)"
  by (simp add: reset_one_def split: option.splits)

lemma reset_one_twice:
  "reset_one (reset_one st k' phase) k phase k = reset_one st k phase k"
  by (cases "k = k'") (auto simp: reset_one_def split: option.splits)

lemma reset_pairs_key:
  "reset_pairs st items phase k =
     (if k \<in> (\<lambda>(p, t). make_key p t) ` set items then reset_one st k phase k else st k)"
proof (induction items arbitrary: st)
  case Nil
  show ?case by simp
next
  case (Cons x items)
  obtain p t where x: "x = (p, t)" by (cases x)
  have "reset_pairs st (x # items) phase k =
      reset_pairs (reset_one st (make_key p t) phase) items phase k"
    by (simp add: x)
  also have "\<dots> =
      (if k \<in> (\<lambda>(p, t). make_key p t) ` set items
       then reset_one (reset_one st (make_key p t) phase) k phase k
       else reset_one st (make_key p t) phase k)"
    by (rule Cons.IH)
  also have "\<dots> =
      (if k \<in> (\<lambda>(p, t). make_key p t) ` set (x # items) then reset_one st k phase k else st k)"
    by (cases "k = make_key p t") (simp_all add: x reset_one_twice reset_one_other)
  finally show ?case .
qed

lemma key_in_items: "(p, t) \<in> set items \<Longrightarrow> make_key p t \<in> (\<lambda>(p, t). make_key p t) ` set items"
  by force

text \<open>
  C8 (reset semantics). For every list of work items: a reset with phase \<open>filter\<close> or
  with no phase leaves every listed item stored as \<open>{"status": "pending"}\<close>; a reset with
  phase \<open>score\<close> turns a listed item that is \<open>score_complete\<close> into \<open>filter_complete\<close>
  (keeping its other fields) and leaves every other listed item as it was, an item with
  no entry included; an item that is not listed is never touched.
\<close>

theorem reset_pairs_semantics:
  "(phase = Some ''filter'' \<or> phase = None \<longrightarrow>
      (\<forall>(p, t) \<in> set items. reset_pairs st items phase (make_key p t) = Some pending_entry))
   \<and> (\<forall>(p, t) \<in> set items.
        reset_pairs st items (Some ''score'') (make_key p t) =
          (case st (make_key p t) of
             None \<Rightarrow> None
           | Some e \<Rightarrow> if status e = ''score_complete'' then Some (e\<lparr>status := ''filter_complete''\<rparr>)
                       else Some e))
   \<and> ((p', t') \<notin> set items \<longrightarrow>
        reset_pairs st items phase (make_key p' t') = st (make_key p' t'))"
proof (intro conjI impI ballI)
  fix x assume ph: "phase = Some ''filter'' \<or> phase = None" and x: "x \<in> set items"
  obtain p t where xp: "x = (p, t)" by (cases x)
  from x have "make_key p t \<in> (\<lambda>(p, t). make_key p t) ` set items"
    unfolding xp by (rule key_in_items)
  with ph show "case x of (p, t) \<Rightarrow> reset_pairs st items phase (make_key p t) = Some pending_entry"
    by (simp add: xp reset_pairs_key reset_one_same)
next
  fix x assume x: "x \<in> set items"
  obtain p t where xp: "x = (p, t)" by (cases x)
  from x have "make_key p t \<in> (\<lambda>(p, t). make_key p t) ` set items"
    unfolding xp by (rule key_in_items)
  then show "case x of (p, t) \<Rightarrow>
        reset_pairs st items (Some ''score'') (make_key p t) =
          (case st (make_key p t) of
             None \<Rightarrow> None
           | Some e \<Rightarrow> if status e = ''score_complete'' then Some (e\<lparr>status := ''filter_complete''\<rparr>)
                       else Some e)"
    by (simp add: xp reset_pairs_key reset_one_same)
next
  assume "(p', t') \<notin> set items"
  then have "make_key p' t' \<notin> (\<lambda>(p, t). make_key p t) ` set items"
    by (auto simp: make_key_inj)
  then show "reset_pairs st items phase (make_key p' t') = st (make_key p' t')"
    by (simp add: reset_pairs_key)
qed

theorem reset_pairs_semantics_witness:
  "reset_pairs ex_store [(3, ''c''), (2, ''b'')] None (make_key 3 ''c'') = Some pending_entry
   \<and> reset_pairs ex_store [(3, ''c''), (2, ''b'')] (Some ''score'') (make_key 3 ''c'')
       = Some (pending_entry\<lparr>status := ''filter_complete''\<rparr>)
   \<and> reset_pairs ex_store [(3, ''c''), (2, ''b'')] (Some ''score'') (make_key 2 ''b'')
       = Some (pending_entry\<lparr>status := ''filter_complete''\<rparr>)
   \<and> reset_pairs ex_store [(3, ''c''), (2, ''b'')] None (make_key 1 ''a'') = Some pending_entry"
  using reset_pairs_semantics [of None "[(3, ''c''), (2, ''b'')]" ex_store 1 "''a''"]
  by (simp add: ex_store_def mk1 mk2 mk3 pending_entry_def)

text \<open>
  C9 (filter completion, frame). Marking the filter phase complete for an item stores an
  entry with status \<open>filter_complete\<close>, the given filter batch ids and the completion
  timestamp; the score batch ids stored before are kept (\<open>[]\<close> when there were none);
  the entry of every other item is unchanged.
\<close>

theorem mark_filter_complete_frame:
  "\<exists>e'. mark_filter_complete st p t ids now (make_key p t) = Some e'
     \<and> status e' = ''filter_complete''
     \<and> filter_batch_job_ids e' = Some ids
     \<and> filter_completed_at e' = Some now
     \<and> (\<forall>e old. st (make_key p t) = Some e \<and> score_batch_job_ids e = Some old \<longrightarrow>
           score_batch_job_ids e' = Some old)
     \<and> ((st (make_key p t) = None \<or> (\<exists>e. st (make_key p t) = Some e \<and> score_batch_job_ids e = None))
           \<longrightarrow> score_batch_job_ids e' = Some [])
     \<and> ((p', t') \<noteq> (p, t) \<longrightarrow>
           mark_filter_complete st p t ids now (make_key p' t') = st (make_key p' t'))"
  by (auto simp: mark_filter_complete_def Let_def make_key_inj)

theorem mark_filter_complete_frame_witness:
  "\<exists>e'. mark_filter_complete
           (ex_store(make_key 3 ''c'' \<mapsto> pending_entry\<lparr>status := ''score_complete'', score_batch_job_ids := Some [''s1'']\<rparr>))
           3 ''c'' [''f2''] ''2025-01-01T00:00:00'' (make_key 3 ''c'') = Some e'
     \<and> status e' = ''filter_complete'' \<and> score_batch_job_ids e' = Some [''s1'']
     \<and> filter_batch_job_ids e' = Some [''f2'']"
  using mark_filter_complete_frame
    [of "ex_store(make_key 3 ''c'' \<mapsto> pending_entry\<lparr>status := ''score_complete'', score_batch_job_ids := Some [''s1'']\<rparr>)"
        3 "''c''" "[''f2'']" "''2025-01-01T00:00:00''" 1 "''a''"]
  by (auto simp: pending_entry_def)

subsection \<open>Phase progression\<close>

lemma item_state_mark_filter:
  "item_state (mark_filter_complete st p t ids now) p' t' =
     (if (p', t') = (p, t) then ''filter_complete'' else item_state st p' t')"
  by (auto simp: item_state_def mark_filter_complete_def Let_def make_key_inj)

lemma item_state_mark_score:
  "item_state (mark_score_complete st p t ids now) p' t' =
     (if (p', t') = (p, t) then ''score_complete'' else item_state st p' t')"
  by (auto simp: item_state_def mark_score_complete_def Let_def make_key_inj)

lemma item_state_reset:
  "item_state (reset_pairs st items phase) p t =
     (if (p, t) \<in> set items then
        (if phase = Some ''filter'' \<or> phase = None then ''pending''
         else if phase = Some ''score'' \<and> item_state st p t = ''score_complete''
           then ''filter_complete''
         else item_state st p t)
      else item_state st p t)"
proof -
  have k: "make_key p t \<in> (\<lambda>(p, t). make_key p t) ` set items \<longleftrightarrow> (p, t) \<in> set items"
    by (force simp: make_key_inj)
  show ?thesis
    unfolding item_state_def reset_pairs_key k
    by (auto simp: reset_one_same pending_entry_def split: option.splits)
qed

lemma step_follows_rule:
  "admitted st x \<Longrightarrow>
   documented_step x (item_state st p t) (item_state (apply_op st x) p t)"
  by (cases x) (auto simp: item_state_mark_filter item_state_mark_score item_state_reset)

text \<open>
  C3 as the specification states it fails: the store checks no order, and the score mark
  on an item with no entry takes it from \<open>pending\<close> to \<open>score_complete\<close> in one step.
\<close>

theorem progression_counterexample:
  "\<not> follows_rule Map.empty [MarkScoreComplete 1 ''a'' [''b1''] ''2025-01-01T00:00:00''] 1 ''a''"
  by (simp add: item_state_def mark_score_complete_def Let_def pending_entry_def)

text \<open>
  C3, amended. In every run in which the filter mark is applied only to items that are
  \<open>pending\<close> or \<open>filter_complete\<close> and the score mark only to items that are
  \<open>filter_complete\<close> or \<open>score_complete\<close> (the items that \<open>get_pending_pairs\<close> hands to
  the pipelines), every item, at every step, keeps its state or moves one phase forward
  on the mark of that phase, and moves backward only on a reset, by the documented rule.
\<close>

theorem progression_when_admitted:
  "admitted_run st ops \<Longrightarrow> follows_rule st ops p t"
proof (induction ops arbitrary: st)
  case Nil
  show ?case by simp
next
  case (Cons x ops)
  then show ?case by (simp add: step_follows_rule)
qed

theorem progression_when_admitted_witness:
  "admitted_run Map.empty
     [MarkFilterComplete 1 ''a'' [''b1''] ''t1'', MarkScoreComplete 1 ''a'' [''b2''] ''t2'',
      ResetPairs [(1, ''a'')] (Some ''score''), ResetPairs [(1, ''a'')] None]
   \<and> follows_rule Map.empty
     [MarkFilterComplete 1 ''a'' [''b1''] ''t1'', MarkScoreComplete 1 ''a'' [''b2''] ''t2'',
      ResetPairs [(1, ''a'')] (Some ''score''), ResetPairs [(1, ''a'')] None] 1 ''a''"
proof -
  have a: "admitted_run Map.empty
     [MarkFilterComplete 1 ''a'' [''b1''] ''t1'', MarkScoreComplete 1 ''a'' [''b2''] ''t2'',
      ResetPairs [(1, ''a'')] (Some ''score''), ResetPairs [(1, ''a'')] None]"
    by (simp add: item_state_mark_filter item_state_mark_score item_state_reset)
       (simp add: item_state_def)
  from a progression_when_admitted [OF a] show ?thesis by simp
qed

subsection \<open>Retrying failed requests\<close>

lemma retry_below_limit:
  "md ''retry_attempt'' = Some (JInt n) \<Longrightarrow> n < mx \<Longrightarrow>
   retry_failed_requests (Created f b) now reqs md mx bm =
     Inr (Some b, md(''retry_attempt'' \<mapsto> JInt (n + 1)),
          snd (projr (create_batch (Created f b) now reqs (md(''retry_attempt'' \<mapsto> JInt (n + 1))) bm)))"
  by (simp add: retry_failed_requests_def create_batch_def Let_def)

lemma retry_first:
  "md ''retry_attempt'' = None \<Longrightarrow> 0 < mx \<Longrightarrow>
   retry_failed_requests (Created f b) now reqs md mx bm =
     Inr (Some b, md(''retry_attempt'' \<mapsto> JInt 1),
          snd (projr (create_batch (Created f b) now reqs (md(''retry_attempt'' \<mapsto> JInt 1)) bm)))"
  by (simp add: retry_failed_requests_def create_batch_def Let_def)

lemma retry_at_limit:
  "md ''retry_attempt'' = Some (JInt n) \<Longrightarrow> mx \<le> n \<Longrightarrow>
   retry_failed_requests reply now reqs md mx bm =
     Inr (None, md,
          bm\<lparr>failed_speeches := failed_speeches bm
                 @ map (\<lambda>req. \<lparr>fs_request = req, fs_metadata = md, fs_timestamp = now\<rparr>) reqs,
             saved_failed_speeches := failed_speeches bm
                 @ map (\<lambda>req. \<lparr>fs_request = req, fs_metadata = md, fs_timestamp = now\<rparr>) reqs\<rparr>)"
  by (simp add: retry_failed_requests_def Let_def)

lemma create_batch_ledger:
  "failed_speeches (snd (projr (create_batch (Created f b) now reqs md bm))) = failed_speeches bm"
  by (simp add: create_batch_def Let_def)

text \<open>
  C1 as the specification states it fails: starting from metadata without
  \<open>retry_attempt\<close>, the third call with \<open>max_attempts = 3\<close> reads the attempt 2, which is
  below the limit, and submits a third batch; nothing is written to the ledger.
\<close>

theorem retry_three_calls_counterexample:
  "map_sum id fst
     (retry_carrying_forward
        [(Created ''f1'' ''b1'', ''t1''), (Created ''f2'' ''b2'', ''t2''),
         (Created ''f3'' ''b3'', ''t3'')]
        [ex_request] Map.empty 3 empty_manager)
     = Inr [Some ''b1'', Some ''b2'', Some ''b3'']
   \<and> map_sum id (\<lambda>r. failed_speeches (snd (snd r)))
     (retry_carrying_forward
        [(Created ''f1'' ''b1'', ''t1''), (Created ''f2'' ''b2'', ''t2''),
         (Created ''f3'' ''b3'', ''t3'')]
        [ex_request] Map.empty 3 empty_manager)
     = Inr []"
  by (simp add: retry_first retry_below_limit create_batch_ledger empty_manager_def)

text \<open>
  C1, amended. With \<open>max_attempts = 3\<close> and metadata that starts without
  \<open>retry_attempt\<close> (or with 0), four calls in succession with the metadata carried forward
  give a new batch id the first three times, while the service accepts the submissions,
  and \<open>None\<close> the fourth time; the fourth call appends every failed request, with the
  metadata and the timestamp of that call, to the failed-request ledger in memory and on
  disk.
\<close>

theorem retry_termination:
  assumes "md ''retry_attempt'' = None \<or> md ''retry_attempt'' = Some (JInt 0)"
  shows "\<exists>bm'.
     retry_carrying_forward
        [(Created f1 b1, t1), (Created f2 b2, t2), (Created f3 b3, t3), (reply, t4)]
        reqs md 3 bm
       = Inr ([Some b1, Some b2, Some b3, None], md(''retry_attempt'' \<mapsto> JInt 3), bm')
     \<and> failed_speeches bm' = failed_speeches bm
          @ map (\<lambda>req. \<lparr>fs_request = req, fs_metadata = md(''retry_attempt'' \<mapsto> JInt 3),
                         fs_timestamp = t4\<rparr>) reqs
     \<and> saved_failed_speeches bm' = failed_speeches bm'"
  using assms
  by (auto simp: retry_first retry_below_limit retry_at_limit create_batch_ledger)

theorem retry_termination_witness:
  "\<exists>bm'.
     retry_carrying_forward
        [(Created ''f1'' ''b1'', ''t1''), (Created ''f2'' ''b2'', ''t2''),
         (Created ''f3'' ''b3'', ''t3''), (CreateFails, ''t4'')]
        [ex_request] Map.empty 3 empty_manager
       = Inr ([Some ''b1'', Some ''b2'', Some ''b3'', None], [''retry_attempt'' \<mapsto> JInt 3], bm')
     \<and> failed_speeches bm' =
          [\<lparr>fs_request = ex_request, fs_metadata = [''retry_attempt'' \<mapsto> JInt 3],
            fs_timestamp = ''t4''\<rparr>]"
proof -
  have h: "Map.empty ''retry_attempt'' = None \<or> Map.empty ''retry_attempt'' = Some (JInt 0)"
    by simp
  from retry_termination [OF h, of "''f1''" "''b1''" "''t1''" "''f2''" "''b2''" "''t2''"
      "''f3''" "''b3''" "''t3''" CreateFails "''t4''" "[ex_request]" empty_manager]
  obtain bm' where
    r: "retry_carrying_forward
        [(Created ''f1'' ''b1'', ''t1''), (Created ''f2'' ''b2'', ''t2''),
         (Created ''f3'' ''b3'', ''t3''), (CreateFails, ''t4'')]
        [ex_request] Map.empty 3 empty_manager
       = Inr ([Some ''b1'', Some ''b2'', Some ''b3'', None], [''retry_attempt'' \<mapsto> JInt 3], bm')"
    and f: "failed_speeches bm' = failed_speeches empty_manager
          @ map (\<lambda>req. \<lparr>fs_request = req, fs_metadata = [''retry_attempt'' \<mapsto> JInt 3],
                         fs_timestamp = ''t4''\<rparr>) [ex_request]"
    by blast
  from f have "failed_speeches bm' =
          [\<lparr>fs_request = ex_request, fs_metadata = [''retry_attempt'' \<mapsto> JInt 3],
            fs_timestamp = ''t4''\<rparr>]"
    by (simp add: empty_manager_def)
  with r show ?thesis by blast
qed

subsection \<open>Fetching results\<close>

lemma split_on_nonempty: "split_on sep s \<noteq> []"
  by (induction s) (auto split: list.splits)

lemma join_split_on: "py_join [sep] (split_on sep s) = s"
proof (induction s)
  case Nil
  show ?case by simp
next
  case (Cons c s)
  obtain l ls where sp: "split_on sep s = l # ls"
    using split_on_nonempty [of sep s] by (cases "split_on sep s") auto
  with Cons show ?case by (cases ls) auto
qed

lemma split_on_no_sep: "l \<in> set (split_on sep s) \<Longrightarrow> sep \<notin> set l"
proof (induction s arbitrary: l)
  case Nil
  then show ?case by simp
next
  case (Cons c s)
  obtain l0 ls where sp: "split_on sep s = l0 # ls"
    using split_on_nonempty [of sep s] by (cases "split_on sep s") auto
  from Cons.IH [of l0] Cons.IH [of l] Cons.prems sp show ?case
    by (auto split: if_splits)
qed

lemma parse_jsonl_all:
  "\<forall>line \<in> set ls. line \<noteq> [] \<longrightarrow> loads line \<noteq> None \<Longrightarrow>
   parse_jsonl loads ls = Inr (map (the \<circ> loads) (filter (\<lambda>line. line \<noteq> []) ls))"
  by (induction ls) auto

text \<open>
  C7 (errors of fetching results). For a batch that the service returns: the fetch fails
  with the "not completed yet" error when the status is not \<open>completed\<close>; it fails with
  the "no output file" error when the completed batch has no output file id; otherwise
  the output, stripped and split at newlines, gives one parsed record per non-empty
  line, in order, every non-empty line being JSON.
\<close>

theorem retrieve_results_behaviour:
  assumes "batches_retrieve cl batch_id = Some batch"
  shows "(b_status batch \<noteq> ''completed'' \<longrightarrow>
            retrieve_results cl loads batch_id = Inl ValueError_not_completed)
     \<and> (b_status batch = ''completed''
          \<and> (b_output_file_id batch = None \<or> b_output_file_id batch = Some []) \<longrightarrow>
            retrieve_results cl loads batch_id = Inl ValueError_no_output_file)
     \<and> (\<forall>file_id content.
          b_status batch = ''completed'' \<and> b_output_file_id batch = Some file_id
          \<and> file_id \<noteq> [] \<and> files_content cl file_id = Some content
          \<and> (\<forall>line \<in> set (split_on nl (strip content)). line \<noteq> [] \<longrightarrow> loads line \<noteq> None) \<longrightarrow>
            retrieve_results cl loads batch_id =
              Inr (map (the \<circ> loads) (filter (\<lambda>line. line \<noteq> []) (split_on nl (strip content))))
            \<and> (\<exists>rs. retrieve_results cl loads batch_id = Inr rs
                 \<and> length rs = length (filter (\<lambda>line. line \<noteq> []) (split_on nl (strip content)))))"
  using assms by (auto simp: retrieve_results_def parse_jsonl_all)

lemma ex_lines: "split_on nl (strip ex_content) = [''{}'', [], ''[]'']"
  by (simp add: ex_content_def strip_def nl_def py_isspace_def)

theorem retrieve_results_behaviour_witness:
  "retrieve_results (ex_client ''in_progress'' None) ex_loads ''b1'' = Inl ValueError_not_completed
   \<and> retrieve_results (ex_client ''completed'' None) ex_loads ''b1'' = Inl ValueError_no_output_file
   \<and> retrieve_results (ex_client ''completed'' (Some ''file_1'')) ex_loads ''b1''
       = Inr [JObj [], JArr []]"
proof -
  have r: "\<And>st out. batches_retrieve (ex_client st out) ''b1''
      = Some \<lparr>b_status = st, b_request_counts = None, b_output_file_id = out\<rparr>"
    by (simp add: ex_client_def)
  have c: "files_content (ex_client ''completed'' (Some ''file_1'')) ''file_1'' = Some ex_content"
    by (simp add: ex_client_def)
  have l: "\<forall>line \<in> set (split_on nl (strip ex_content)). line \<noteq> [] \<longrightarrow> ex_loads line \<noteq> None"
    by (simp add: ex_lines ex_loads_def)
  from retrieve_results_behaviour [OF r, of "''in_progress''" None ex_loads]
  have 1: "retrieve_results (ex_client ''in_progress'' None) ex_loads ''b1''
      = Inl ValueError_not_completed"
    by simp
  from retrieve_results_behaviour [OF r, of "''completed''" None ex_loads]
  have 2: "retrieve_results (ex_client ''completed'' None) ex_loads ''b1''
      = Inl ValueError_no_output_file"
    by simp
  from retrieve_results_behaviour [OF r, of "''completed''" "Some ''file_1''" ex_loads] c l
  have "retrieve_results (ex_client ''completed'' (Some ''file_1'')) ex_loads ''b1''
      = Inr (map (the \<circ> ex_loads) (filter (\<lambda>line. line \<noteq> []) (split_on nl (strip ex_content))))"
    by simp
  then have 3: "retrieve_results (ex_client ''completed'' (Some ''file_1'')) ex_loads ''b1''
      = Inr [JObj [], JArr []]"
    by (simp add: ex_lines ex_loads_def)
  from 1 2 3 show ?thesis by simp
qed

subsection \<open>Polling\<close>

lemma set_job_field_costs [simp]: "costs (set_job_field b f v bm) = costs bm"
  by (simp add: set_job_field_def split: option.splits)

lemma poll_one_error:
  assumes "b \<in> set (ps_remaining s)"
    and "retrieve env (ps_calls s) b = None
         \<or> (\<exists>batch. retrieve env (ps_calls s) b = Some batch \<and> b_request_counts batch = None)"
  shows "poll_one env b s =
     Inr (s\<lparr>ps_calls := Suc (ps_calls s),
            ps_completed := (ps_completed s)(b \<mapsto> ''error''),
            ps_remaining := remove1 b (ps_remaining s)\<rparr>)"
  using assms by (auto simp: poll_one_def try_body_def except_clause_def Let_def)

lemma poll_one_cases:
  assumes w: "\<forall>k. costs_writable env k" and b: "b \<in> set (ps_remaining s)"
  shows "\<exists>s'. poll_one env b s = Inr s' \<and> ps_calls s' = Suc (ps_calls s) \<and>
     ((ps_remaining s' = remove1 b (ps_remaining s)
        \<and> (\<exists>st \<in> set terminal_statuses \<union> {''error''}.
              ps_completed s' = (ps_completed s)(b \<mapsto> st)))
      \<or> (\<not> settles (retrieve env (ps_calls s) b)
          \<and> ps_remaining s' = ps_remaining s \<and> ps_completed s' = ps_completed s))"
proof (cases "retrieve env (ps_calls s) b")
  case None
  with b show ?thesis by (simp add: poll_one_error)
next
  case (Some batch)
  show ?thesis
  proof (cases "b_request_counts batch")
    case None
    with Some b show ?thesis by (simp add: poll_one_error)
  next
    case (Some counts)
    note c = this
    show ?thesis
    proof (cases "b_status batch \<in> set terminal_statuses")
      case False
      with \<open>retrieve env (ps_calls s) b = Some batch\<close> c show ?thesis
        by (simp add: poll_one_def try_body_def Let_def settles_def)
    next
      case True
      with \<open>retrieve env (ps_calls s) b = Some batch\<close> c b w show ?thesis
        by (auto simp: poll_one_def try_body_def Let_def track_batch_cost_def)
    qed
  qed
qed

lemma poll_each_inv:
  assumes w: "\<forall>k. costs_writable env k"
  shows "mset todo \<subseteq># mset (ps_remaining s) \<Longrightarrow>
     \<exists>s'. poll_each env todo s = Inr s'
       \<and> ps_calls s' = ps_calls s + length todo
       \<and> set (ps_remaining s') \<subseteq> set (ps_remaining s)
       \<and> dom (ps_completed s') \<union> set (ps_remaining s') = dom (ps_completed s) \<union> set (ps_remaining s)
       \<and> (\<forall>b st. ps_completed s' b = Some st \<longrightarrow>
             ps_completed s b = Some st \<or> st \<in> set terminal_statuses \<union> {''error''})
       \<and> ((\<forall>k \<ge> ps_calls s. \<forall>b \<in> set todo. settles (retrieve env k b)) \<longrightarrow>
             mset (ps_remaining s') = mset (ps_remaining s) - mset todo)"
proof (induction todo arbitrary: s)
  case Nil
  show ?case by simp
next
  case (Cons b rest)
  from Cons.prems have b: "b \<in> set (ps_remaining s)"
    and rest: "mset rest \<subseteq># mset (ps_remaining s) - {#b#}"
    by (simp_all add: insert_subset_eq_iff)
  from poll_one_cases [OF w b] obtain s1 where
    p: "poll_one env b s = Inr s1" and c1: "ps_calls s1 = Suc (ps_calls s)" and
    alt: "(ps_remaining s1 = remove1 b (ps_remaining s)
        \<and> (\<exists>st \<in> set terminal_statuses \<union> {''error''}.
              ps_completed s1 = (ps_completed s)(b \<mapsto> st)))
      \<or> (\<not> settles (retrieve env (ps_calls s) b)
          \<and> ps_remaining s1 = ps_remaining s \<and> ps_completed s1 = ps_completed s)"
    by blast
  have sub: "mset rest \<subseteq># mset (ps_remaining s1)"
  proof -
    from alt have "ps_remaining s1 = remove1 b (ps_remaining s) \<or> ps_remaining s1 = ps_remaining s"
      by blast
    then show ?thesis
    proof
      assume "ps_remaining s1 = remove1 b (ps_remaining s)"
      with rest show ?thesis by simp
    next
      assume "ps_remaining s1 = ps_remaining s"
      moreover have "mset (ps_remaining s) - {#b#} \<subseteq># mset (ps_remaining s)"
        by (rule diff_subset_eq_self)
      ultimately show ?thesis using rest by (metis subset_mset.order_trans)
    qed
  qed
  from Cons.IH [OF sub] obtain s' where
    e: "poll_each env rest s1 = Inr s'" and
    c: "ps_calls s' = ps_calls s1 + length rest" and
    u: "set (ps_remaining s') \<subseteq> set (ps_remaining s1)" and
    d: "dom (ps_completed s') \<union> set (ps_remaining s') = dom (ps_completed s1) \<union> set (ps_remaining s1)" and
    v: "\<forall>b st. ps_completed s' b = Some st \<longrightarrow>
             ps_completed s1 b = Some st \<or> st \<in> set terminal_statuses \<union> {''error''}" and
    m: "(\<forall>k \<ge> ps_calls s1. \<forall>b \<in> set rest. settles (retrieve env k b)) \<longrightarrow>
             mset (ps_remaining s') = mset (ps_remaining s1) - mset rest"
    by blast
  have d1: "dom (ps_completed s1) \<union> set (ps_remaining s1) = dom (ps_completed s) \<union> set (ps_remaining s)"
    using alt b by (auto simp: in_set_remove1 dest: notin_set_remove1 split: if_splits)
  have v1: "\<forall>b st. ps_completed s1 b = Some st \<longrightarrow>
             ps_completed s b = Some st \<or> st \<in> set terminal_statuses \<union> {''error''}"
    using alt by (auto split: if_splits)
  have m1: "(\<forall>k \<ge> ps_calls s. \<forall>x \<in> set (b # rest). settles (retrieve env k x)) \<longrightarrow>
             mset (ps_remaining s') = mset (ps_remaining s) - mset (b # rest)"
  proof
    assume a: "\<forall>k \<ge> ps_calls s. \<forall>x \<in> set (b # rest). settles (retrieve env k x)"
    then have "settles (retrieve env (ps_calls s) b)" by simp
    with alt have r1: "ps_remaining s1 = remove1 b (ps_remaining s)" by blast
    from a c1 have "\<forall>k \<ge> ps_calls s1. \<forall>x \<in> set rest. settles (retrieve env k x)" by simp
    with m have "mset (ps_remaining s') = mset (ps_remaining s1) - mset rest" by blast
    with r1 show "mset (ps_remaining s') = mset (ps_remaining s) - mset (b # rest)" by simp
  qed
  have u1: "set (ps_remaining s1) \<subseteq> set (ps_remaining s)"
    using alt set_remove1_subset [of b "ps_remaining s"] by auto
  have "poll_each env (b # rest) s = Inr s'" using p e by simp
  moreover have "ps_calls s' = ps_calls s + length (b # rest)" using c c1 by simp
  moreover have "set (ps_remaining s') \<subseteq> set (ps_remaining s)" using u u1 by blast
  moreover have "dom (ps_completed s') \<union> set (ps_remaining s') = dom (ps_completed s) \<union> set (ps_remaining s)"
    using d d1 by simp
  moreover have "\<forall>b st. ps_completed s' b = Some st \<longrightarrow>
             ps_completed s b = Some st \<or> st \<in> set terminal_statuses \<union> {''error''}"
    using v v1 by blast
  ultimately show ?case using m1 by blast
qed

lemma poll_round_inv:
  assumes w: "\<forall>k. costs_writable env k" and ne: "ps_remaining s \<noteq> []"
  shows "\<exists>s'. poll_round env interval r s = Inr s'
       \<and> ps_calls s < ps_calls s'
       \<and> set (ps_remaining s') \<subseteq> set (ps_remaining s)
       \<and> dom (ps_completed s') \<union> set (ps_remaining s') = dom (ps_completed s) \<union> set (ps_remaining s)
       \<and> (\<forall>b st. ps_completed s' b = Some st \<longrightarrow>
             ps_completed s b = Some st \<or> st \<in> set terminal_statuses \<union> {''error''})
       \<and> ((\<forall>k \<ge> ps_calls s. \<forall>b \<in> set (ps_remaining s). settles (retrieve env k b)) \<longrightarrow>
             ps_remaining s' = [])"
proof -
  have "mset (ps_remaining s) \<subseteq># mset (ps_remaining s)" by simp
  from poll_each_inv [OF w this] obtain s1 where
    e: "poll_each env (ps_remaining s) s = Inr s1" and
    c: "ps_calls s1 = ps_calls s + length (ps_remaining s)" and
    u: "set (ps_remaining s1) \<subseteq> set (ps_remaining s)" and
    d: "dom (ps_completed s1) \<union> set (ps_remaining s1) = dom (ps_completed s) \<union> set (ps_remaining s)" and
    v: "\<forall>b st. ps_completed s1 b = Some st \<longrightarrow>
             ps_completed s b = Some st \<or> st \<in> set terminal_statuses \<union> {''error''}" and
    m: "(\<forall>k \<ge> ps_calls s. \<forall>b \<in> set (ps_remaining s). settles (retrieve env k b)) \<longrightarrow>
             mset (ps_remaining s1) = mset (ps_remaining s) - mset (ps_remaining s)"
    by blast
  from ne c have c': "ps_calls s < ps_calls s1" by (cases "ps_remaining s") simp_all
  from m have m': "(\<forall>k \<ge> ps_calls s. \<forall>b \<in> set (ps_remaining s). settles (retrieve env k b)) \<longrightarrow>
             ps_remaining s1 = []" by simp
  show ?thesis
    using e c' u d v m' by (simp add: poll_round_def Let_def)
qed

lemma poll_loop_returns:
  assumes w: "\<forall>k. costs_writable env k" and se: "settled_from env K ids"
  shows "set (ps_remaining s) \<subseteq> set ids \<Longrightarrow>
     (ps_remaining s \<noteq> [] \<longrightarrow> K < ps_calls s + fuel \<and> 0 < fuel) \<Longrightarrow>
     \<exists>s'. poll_loop fuel env interval r s = Some (Inr s')
       \<and> ps_remaining s' = []
       \<and> dom (ps_completed s') = dom (ps_completed s) \<union> set (ps_remaining s)
       \<and> (\<forall>b st. ps_completed s' b = Some st \<longrightarrow>
             ps_completed s b = Some st \<or> st \<in> set terminal_statuses \<union> {''error''})"
proof (induction fuel arbitrary: s r)
  case 0
  then show ?case by auto
next
  case (Suc fuel)
  show ?case
  proof (cases "ps_remaining s = []")
    case True
    then show ?thesis by simp
  next
    case False
    from poll_round_inv [OF w False, of interval r] obtain s1 where
      p: "poll_round env interval r s = Inr s1" and
      c: "ps_calls s < ps_calls s1" and
      u: "set (ps_remaining s1) \<subseteq> set (ps_remaining s)" and
      d: "dom (ps_completed s1) \<union> set (ps_remaining s1) = dom (ps_completed s) \<union> set (ps_remaining s)" and
      v: "\<forall>b st. ps_completed s1 b = Some st \<longrightarrow>
             ps_completed s b = Some st \<or> st \<in> set terminal_statuses \<union> {''error''}" and
      m: "(\<forall>k \<ge> ps_calls s. \<forall>b \<in> set (ps_remaining s). settles (retrieve env k b)) \<longrightarrow>
             ps_remaining s1 = []"
      by blast
    from u Suc.prems(1) have sub: "set (ps_remaining s1) \<subseteq> set ids" by blast
    have fu: "ps_remaining s1 \<noteq> [] \<longrightarrow> K < ps_calls s1 + fuel \<and> 0 < fuel"
    proof
      assume ne: "ps_remaining s1 \<noteq> []"
      have "\<not> K \<le> ps_calls s"
      proof
        assume "K \<le> ps_calls s"
        with se Suc.prems(1) have "\<forall>k \<ge> ps_calls s. \<forall>b \<in> set (ps_remaining s). settles (retrieve env k b)"
          by (auto simp: settled_from_def)
        with m ne show False by blast
      qed
      moreover from Suc.prems(2) False have "K < ps_calls s + Suc fuel" by blast
      ultimately show "K < ps_calls s1 + fuel \<and> 0 < fuel" using c by arith
    qed
    from Suc.IH [OF sub fu, of "Suc r"] obtain s' where
      l: "poll_loop fuel env interval (Suc r) s1 = Some (Inr s')" and
      e: "ps_remaining s' = []" and
      d': "dom (ps_completed s') = dom (ps_completed s1) \<union> set (ps_remaining s1)" and
      v': "\<forall>b st. ps_completed s' b = Some st \<longrightarrow>
             ps_completed s1 b = Some st \<or> st \<in> set terminal_statuses \<union> {''error''}"
      by blast
    have "poll_loop (Suc fuel) env interval r s = Some (Inr s')"
      using False p l by simp
    moreover have "dom (ps_completed s') = dom (ps_completed s) \<union> set (ps_remaining s)"
      using d d' by simp
    moreover have "\<forall>b st. ps_completed s' b = Some st \<longrightarrow>
             ps_completed s b = Some st \<or> st \<in> set terminal_statuses \<union> {''error''}"
      using v v' by blast
    ultimately show ?thesis using e by blast
  qed
qed

lemma poll_loop_exit: "poll_loop fuel env interval r s = Some (Inr s') \<Longrightarrow> ps_remaining s' = []"
proof (induction fuel arbitrary: r s)
  case 0
  then show ?case by (simp split: if_splits)
next
  case (Suc fuel)
  then show ?case by (auto split: if_splits sum.splits)
qed

lemma poll_loop_empty: "ps_remaining s = [] \<Longrightarrow> poll_loop fuel env interval r s = Some (Inr s)"
  by (cases fuel) simp_all

text \<open>
  C6 (polling: every id gets a status, errors are isolated, the loop ends when nothing is
  outstanding). Assume that the cost ledger can be written and that from the \<open>K\<close>-th call
  on the service answers every listed id with an exception or a terminal status. Then,
  given more than \<open>K\<close> rounds, \<open>poll_batches\<close> returns a dict whose keys are exactly the
  ids of the list, each with a terminal status or \<open>error\<close>. For every state of the loop,
  a call that raises for an outstanding id (or returns a batch without request counts)
  records \<open>error\<close> for that id, removes it from \<open>remaining\<close>, and the round goes on with
  the ids after it. The loop ends only in a state with nothing outstanding, and ends at
  once, without a call, when nothing is outstanding.
\<close>

theorem poll_batches_total_isolated:
  assumes w: "\<forall>k. costs_writable env k"
    and se: "settled_from env K batch_ids"
    and fu: "K < fuel"
  shows "(\<exists>completed bm'.
            poll_batches fuel env batch_ids interval bm = Some (Inr (completed, bm'))
            \<and> dom completed = set batch_ids
            \<and> (\<forall>b \<in> set batch_ids.
                  \<exists>st \<in> set terminal_statuses \<union> {''error''}. completed b = Some st))
     \<and> (\<forall>s b rest.
           b \<in> set (ps_remaining s)
           \<and> (retrieve env (ps_calls s) b = None
               \<or> (\<exists>batch. retrieve env (ps_calls s) b = Some batch \<and> b_request_counts batch = None))
           \<longrightarrow> poll_each env (b # rest) s =
                 poll_each env rest
                   (s\<lparr>ps_calls := Suc (ps_calls s),
                      ps_completed := (ps_completed s)(b \<mapsto> ''error''),
                      ps_remaining := remove1 b (ps_remaining s)\<rparr>))
     \<and> (\<forall>n r s s'. poll_loop n env interval r s = Some (Inr s') \<longrightarrow> ps_remaining s' = [])
     \<and> (\<forall>n r s. ps_remaining s = [] \<longrightarrow> poll_loop n env interval r s = Some (Inr s))"
proof (intro conjI)
  let ?s0 = "poll_start batch_ids bm"
  have sub: "set (ps_remaining ?s0) \<subseteq> set batch_ids" by (simp add: poll_start_def)
  have f: "ps_remaining ?s0 \<noteq> [] \<longrightarrow> K < ps_calls ?s0 + fuel \<and> 0 < fuel"
    using fu by simp
  from poll_loop_returns [OF w se sub f, of interval 0] obtain s' where
    l: "poll_loop fuel env interval 0 ?s0 = Some (Inr s')" and
    d: "dom (ps_completed s') = dom (ps_completed ?s0) \<union> set (ps_remaining ?s0)" and
    v: "\<forall>b st. ps_completed s' b = Some st \<longrightarrow>
             ps_completed ?s0 b = Some st \<or> st \<in> set terminal_statuses \<union> {''error''}"
    by blast
  from d have d': "dom (ps_completed s') = set batch_ids" by (simp add: poll_start_def)
  have v': "\<forall>b \<in> set batch_ids.
      \<exists>st \<in> set terminal_statuses \<union> {''error''}. ps_completed s' b = Some st"
  proof
    fix b assume "b \<in> set batch_ids"
    with d' obtain st where st: "ps_completed s' b = Some st" by blast
    with v have "ps_completed ?s0 b = Some st \<or> st \<in> set terminal_statuses \<union> {''error''}"
      by blast
    then have "st \<in> set terminal_statuses \<union> {''error''}" by (simp add: poll_start_def)
    with st show "\<exists>st \<in> set terminal_statuses \<union> {''error''}. ps_completed s' b = Some st"
      by blast
  qed
  from l d' v' show "\<exists>completed bm'.
            poll_batches fuel env batch_ids interval bm = Some (Inr (completed, bm'))
            \<and> dom completed = set batch_ids
            \<and> (\<forall>b \<in> set batch_ids.
                  \<exists>st \<in> set terminal_statuses \<union> {''error''}. completed b = Some st)"
    by (simp add: poll_batches_def)
next
  show "\<forall>s b rest.
           b \<in> set (ps_remaining s)
           \<and> (retrieve env (ps_calls s) b = None
               \<or> (\<exists>batch. retrieve env (ps_calls s) b = Some batch \<and> b_request_counts batch = None))
           \<longrightarrow> poll_each env (b # rest) s =
                 poll_each env rest
                   (s\<lparr>ps_calls := Suc (ps_calls s),
                      ps_completed := (ps_completed s)(b \<mapsto> ''error''),
                      ps_remaining := remove1 b (ps_remaining s)\<rparr>)"
    by (simp add: poll_one_error)
next
  show "\<forall>n r s s'. poll_loop n env interval r s = Some (Inr s') \<longrightarrow> ps_remaining s' = []"
    using poll_loop_exit by blast
next
  show "\<forall>n r s. ps_remaining s = [] \<longrightarrow> poll_loop n env interval r s = Some (Inr s)"
    using poll_loop_empty by blast
qed

lemma ex_env_settled: "settled_from ex_env 2 [''a'', ''b'']"
  by (simp add: settled_from_def settles_def ex_env_def terminal_statuses_def)

lemma ex_env_poll:
  "map_option (map_sum id fst) (poll_batches 3 ex_env [''a'', ''b''] 30 empty_manager)
     = Some (Inr [''a'' \<mapsto> ''error'', ''b'' \<mapsto> ''completed''])"
  by (simp add: poll_batches_def poll_start_def numeral_3_eq_3 poll_round_def poll_one_def
      try_body_def except_clause_def track_batch_cost_def set_job_field_def ex_env_def
      empty_manager_def terminal_statuses_def Let_def)

theorem poll_batches_total_isolated_witness:
  "(\<exists>completed bm'.
      poll_batches 3 ex_env [''a'', ''b''] 30 empty_manager = Some (Inr (completed, bm'))
      \<and> dom completed = {''a'', ''b''})
   \<and> map_option (map_sum id fst) (poll_batches 3 ex_env [''a'', ''b''] 30 empty_manager)
       = Some (Inr [''a'' \<mapsto> ''error'', ''b'' \<mapsto> ''completed''])"
proof -
  have w: "\<forall>k. costs_writable ex_env k" by (simp add: ex_env_def)
  have fu: "(2::nat) < 3" by simp
  from poll_batches_total_isolated [OF w ex_env_settled fu, of 30 empty_manager]
  have "\<exists>completed bm'.
      poll_batches 3 ex_env [''a'', ''b''] 30 empty_manager = Some (Inr (completed, bm'))
      \<and> dom completed = set [''a'', ''b'']"
    by blast
  then show ?thesis using ex_env_poll by simp
qed

text \<open>
  The assumption on the cost ledger is needed: when the write of the cost ledger raises
  for a completed batch, the id has already been removed from \<open>remaining\<close>, the
  \<open>except\<close> clause fails to remove it again, and the \<open>ValueError\<close> ends the polling.
\<close>

lemma poll_one_cost_write_fails:
  assumes "retrieve env (ps_calls s) b = Some batch" "b_status batch = ''completed''"
    and "b_request_counts batch = Some counts" "\<not> costs_writable env (ps_calls s)"
    and "b \<in> set (ps_remaining s)" "distinct (ps_remaining s)"
  shows "poll_one env b s = Inl ValueError_remove"
  using assms
  by (simp add: poll_one_def try_body_def except_clause_def track_batch_cost_def Let_def
      terminal_statuses_def)

subsection \<open>Appending to an intermediate file\<close>

lemma artifact_rows_save:
  "artifact_rows (save_filtered_speeches dir p t chunk) p t = artifact_rows dir p t @ chunk"
  by (simp add: artifact_rows_def save_filtered_speeches_def Let_def split: option.splits)

text \<open>
  C4 as the specification states it fails: appending the same chunk of one row twice to a
  new artifact leaves the row twice, where a single append leaves it once.
\<close>

theorem append_twice_counterexample:
  "artifact_rows (save_filtered_speeches Map.empty 1 ''topicA'' [ex_row]) 1 ''topicA'' = [ex_row]
   \<and> artifact_rows
     (save_filtered_speeches (save_filtered_speeches Map.empty 1 ''topicA'' [ex_row])
        1 ''topicA'' [ex_row]) 1 ''topicA'' = [ex_row, ex_row]
   \<and> \<not> distinct (artifact_rows
     (save_filtered_speeches (save_filtered_speeches Map.empty 1 ''topicA'' [ex_row])
        1 ''topicA'' [ex_row]) 1 ''topicA'')"
  by (simp add: artifact_rows_save) (simp add: artifact_rows_def)

text \<open>
  C4, amended. \<open>_save_filtered_speeches\<close> appends without looking at what the file
  holds: after a second append of a chunk the artifact is the artifact after the first
  append followed by the rows of the chunk once more, so its length grows by the length
  of the chunk; only the set of distinct rows is the same as after one append.
\<close>

theorem append_twice_duplicates:
  "artifact_rows (save_filtered_speeches (save_filtered_speeches dir p t chunk) p t chunk) p t
     = artifact_rows (save_filtered_speeches dir p t chunk) p t @ chunk
   \<and> length (artifact_rows
        (save_filtered_speeches (save_filtered_speeches dir p t chunk) p t chunk) p t)
     = length (artifact_rows (save_filtered_speeches dir p t chunk) p t) + length chunk
   \<and> set (artifact_rows
        (save_filtered_speeches (save_filtered_speeches dir p t chunk) p t chunk) p t)
     = set (artifact_rows (save_filtered_speeches dir p t chunk) p t)"
  by (auto simp: artifact_rows_save)

subsection \<open>Aggregation\<close>

lemma update_first_topic_again:
  "update_first_topic topic c a ts = Some ts' \<Longrightarrow> update_first_topic topic c a ts' = Some ts'"
proof (induction ts arbitrary: ts')
  case Nil
  then show ?case by simp
next
  case (Cons x ts)
  then show ?case by (auto split: if_splits)
qed

lemma update_first_topic_appended:
  "update_first_topic topic c a ts = None \<Longrightarrow>
   update_first_topic topic c a (ts @ [\<lparr>topicName = topic, ts_count = c, ts_average = py_round2 a\<rparr>])
     = Some (ts @ [\<lparr>topicName = topic, ts_count = c, ts_average = py_round2 a\<rparr>])"
  by (induction ts) (auto split: if_splits)

lemma find_update_first_topic:
  "update_first_topic topic c a ts = Some ts' \<Longrightarrow>
   map_option (\<lambda>t. (ts_count t, ts_average t)) (find (\<lambda>t. topicName t = topic) ts')
     = Some (c, py_round2 a)"
proof (induction ts arbitrary: ts')
  case Nil
  then show ?case by simp
next
  case (Cons x ts)
  then show ?case by (auto split: if_splits)
qed

lemma find_update_first_topic_ex:
  "update_first_topic topic c a ts = Some ts' \<Longrightarrow>
   \<exists>z. find (\<lambda>t. topicName t = topic) ts' = Some z \<and> ts_count z = c
     \<and> ts_average z = py_round2 a"
  using find_update_first_topic [of topic c a ts ts'] by auto

lemma find_appended:
  "update_first_topic topic c a ts = None \<Longrightarrow>
   find (\<lambda>t. topicName t = topic) (ts @ [e]) = (if topicName e = topic then Some e else None)"
  by (induction ts) (auto split: if_splits)

lemma update_mk_json_again:
  "update_mk_json person p t c a (update_mk_json person p t c a out) = update_mk_json person p t c a out"
proof (cases "mk_json out (str_int p)")
  case None
  show ?thesis
  proof (cases "person p")
    case None
    with \<open>mk_json out (str_int p) = None\<close> show ?thesis by (simp add: update_mk_json_def)
  next
    case (Some md)
    with None show ?thesis by (simp add: update_mk_json_def Let_def)
  qed
next
  case (Some data)
  show ?thesis
  proof (cases "update_first_topic t c a (mk_Topics data)")
    case None
    with Some show ?thesis
      by (simp add: update_mk_json_def Let_def update_first_topic_appended)
  next
    case (Some ts')
    with \<open>mk_json out (str_int p) = Some data\<close> show ?thesis
      by (simp add: update_mk_json_def Let_def update_first_topic_again)
  qed
qed

lemma update_topic_json_again:
  "update_topic_json t p c a (update_topic_json t p c a out) = update_topic_json t p c a out"
  by (simp add: update_topic_json_def Let_def)

lemma mk_json_update_topic_json [simp]:
  "mk_json (update_topic_json t p c a out) = mk_json out"
  by (simp add: update_topic_json_def Let_def)

lemma update_mk_topic_commute:
  "update_mk_json person p t c a (update_topic_json t' p' c' a' out)
     = update_topic_json t' p' c' a' (update_mk_json person p t c a out)"
  by (simp add: update_mk_json_def update_topic_json_def Let_def split: option.splits)

lemma mk_stat_update_mk_json:
  "mk_json (update_mk_json person p t c a out) (str_int p) \<noteq> None \<Longrightarrow>
   mk_stat (update_mk_json person p t c a out) p t = Some (c, py_round2 a)"
  by (auto simp: update_mk_json_def mk_stat_def Let_def find_update_first_topic_ex find_appended
      split: option.splits)

lemma topic_stat_update_topic_json:
  "topic_stat_of (update_topic_json t p c a out) p t = Some (c, py_round2 a)"
  by (simp add: topic_stat_of_def update_topic_json_def Let_def)

lemma mk_stat_update_topic_json [simp]:
  "mk_stat (update_topic_json t' p' c a out) p t = mk_stat out p t"
  by (simp add: mk_stat_def)

text \<open>
  C5 (idempotent aggregation). For every person, topic and non-empty list of scored
  rows: when the first call of \<open>update_aggregations\<close> succeeds, a second call with the
  same rows succeeds and leaves both aggregate documents exactly as the first call left
  them. The statistics stored are the number of rows and the rounded mean of the ranks,
  in the document of the topic and, when the document of the person exists, in it.
\<close>

theorem aggregation_idempotent:
  assumes ne: "R \<noteq> []"
    and first: "update_aggregations person p t R out = Inr out1"
  shows "update_aggregations person p t R out1 = Inr out1
     \<and> (\<exists>avg. py_mean (map sr_Rank R) = Some avg
          \<and> topic_stat_of out1 p t = Some (int (length R), py_round2 avg)
          \<and> (mk_json out1 (str_int p) \<noteq> None \<longrightarrow>
                mk_stat out1 p t = Some (int (length R), py_round2 avg)))"
proof -
  from ne first obtain avg where
    m: "py_mean (map sr_Rank R) = Some avg" and
    o: "out1 = update_topic_json t p (int (length R)) avg
                 (update_mk_json person p t (int (length R)) avg out)"
    by (auto simp: update_aggregations_def Let_def split: option.splits)
  have "update_aggregations person p t R out1 = Inr out1"
    using ne m
    by (simp add: update_aggregations_def Let_def o update_mk_topic_commute
        update_mk_json_again update_topic_json_again)
  moreover have "topic_stat_of out1 p t = Some (int (length R), py_round2 avg)"
    by (simp add: o topic_stat_update_topic_json)
  moreover have "mk_json out1 (str_int p) \<noteq> None \<longrightarrow>
      mk_stat out1 p t = Some (int (length R), py_round2 avg)"
    by (simp add: o mk_stat_update_mk_json)
  ultimately show ?thesis using m by blast
qed

lemma ex_mean: "py_mean (map sr_Rank ex_scored) = Some (7 / 2)"
  by (simp add: py_mean_def ex_scored_def)

lemma ex_round: "py_round2 (7 / 2) = 7 / 2"
  by (simp add: py_round2_def Let_def)

theorem aggregation_idempotent_witness:
  "update_aggregations ex_person 42 ''topicA'' ex_scored
     (projr (update_aggregations ex_person 42 ''topicA'' ex_scored empty_output))
     = Inr (projr (update_aggregations ex_person 42 ''topicA'' ex_scored empty_output))
   \<and> topic_stat_of (projr (update_aggregations ex_person 42 ''topicA'' ex_scored empty_output))
        42 ''topicA'' = Some (2, 7 / 2)
   \<and> mk_stat (projr (update_aggregations ex_person 42 ''topicA'' ex_scored empty_output))
        42 ''topicA'' = Some (2, 7 / 2)"
proof -
  let ?out1 = "projr (update_aggregations ex_person 42 ''topicA'' ex_scored empty_output)"
  have ne: "ex_scored \<noteq> []" by (simp add: ex_scored_def)
  have first: "update_aggregations ex_person 42 ''topicA'' ex_scored empty_output = Inr ?out1"
    using ne by (simp add: update_aggregations_def Let_def ex_mean)
  have ex: "mk_json ?out1 (str_int 42) \<noteq> None"
    using ne by (simp add: update_aggregations_def Let_def ex_mean update_mk_json_def
        empty_output_def ex_person_def)
  have len: "int (length ex_scored) = 2" by (simp add: ex_scored_def)
  from aggregation_idempotent [OF ne first] ex obtain avg where
    again: "update_aggregations ex_person 42 ''topicA'' ex_scored ?out1 = Inr ?out1" and
    m: "py_mean (map sr_Rank ex_scored) = Some avg" and
    ts: "topic_stat_of ?out1 42 ''topicA'' = Some (int (length ex_scored), py_round2 avg)" and
    ms: "mk_stat ?out1 42 ''topicA'' = Some (int (length ex_scored), py_round2 avg)"
    by blast
  from m ex_mean have "avg = 7 / 2" by (metis option.inject)
  with ts ms have "topic_stat_of ?out1 42 ''topicA'' = Some (2, 7 / 2)"
    and "mk_stat ?out1 42 ''topicA'' = Some (2, 7 / 2)"
    by (simp_all only: len ex_round)
  with again show ?thesis by blast
qed

subsection \<open>Custom ids of scoring requests\<close>

lemma split_on_single: "sep \<notin> set a \<Longrightarrow> split_on sep a = [a]"
  by (induction a) auto

lemma split_on_append:
  "sep \<notin> set a \<Longrightarrow> split_on sep (a @ sep # rest) = a # split_on sep rest"
  by (induction a) auto

lemma dropWhile_none: "\<forall>c \<in> set s. \<not> P c \<Longrightarrow> dropWhile P s = s"
  by (induction s) simp_all

lemma strip_no_space: "\<forall>c \<in> set s. \<not> py_isspace c \<Longrightarrow> strip s = s"
  by (simp add: strip_def dropWhile_none)

lemma digit_val_digit_char: "d < 10 \<Longrightarrow> digit_val (digit_char d) = Some d"
  unfolding digit_char_def digit_val_def by (simp split: if_splits)

lemma digits_val_append:
  "digits_val acc (xs @ ys) =
     (case digits_val acc xs of None \<Rightarrow> None | Some a \<Rightarrow> digits_val a ys)"
  by (induction xs arbitrary: acc) (auto split: option.splits)

lemma digits_val_str_nat:
  "digits_val acc (str_nat n) = Some (acc * 10 ^ length (str_nat n) + n)"
proof (induction n arbitrary: acc rule: str_nat.induct)
  case (1 n)
  show ?case
  proof (cases "n < 10")
    case True
    then show ?thesis
      by (simp add: str_nat.simps [of n] digit_val_digit_char)
  next
    case False
    have d: "digit_val (digit_char (n mod 10)) = Some (n mod 10)"
      by (simp add: digit_val_digit_char)
    from False show ?thesis
      by (simp add: str_nat.simps [of n] digits_val_append 1 d algebra_simps)
  qed
qed

lemma str_nat_no_space: "\<forall>c \<in> set (str_nat n). \<not> py_isspace c"
  using set_str_nat [of n] by (auto simp: py_isspace_def)

lemma str_int_no_space: "\<forall>c \<in> set (str_int i). \<not> py_isspace c"
  using str_nat_no_space by (auto simp: str_int_def py_isspace_def)

lemma hd_str_nat_not_plus: "hd (str_nat n) \<noteq> CHR ''+''"
proof -
  have "hd (str_nat n) \<in> set (str_nat n)" using str_nat_nonempty by simp
  with set_str_nat [of n] show ?thesis by auto
qed

lemma py_int_str_int: "py_int (str_int i) = Some i"
proof (cases "i < 0")
  case True
  then show ?thesis
    by (simp add: py_int_def strip_no_space str_int_no_space Let_def)
       (simp add: str_int_def str_nat_nonempty digits_val_str_nat)
next
  case False
  then show ?thesis
    by (simp add: py_int_def strip_no_space str_int_no_space Let_def)
       (simp add: str_int_def str_nat_nonempty digits_val_str_nat hd_str_nat_not_minus
          hd_str_nat_not_plus)
qed

lemma custom_id_parts_scoring:
  "custom_id_parts (scoring_custom_id speech_id include_reasoning)
     = Inr (speech_id, include_reasoning)"
proof -
  have u: "CHR ''_'' \<notin> set (str_int (if include_reasoning then 1 else 0))"
    by (rule underscore_notin_str_int)
  have "split_on CHR ''_'' (scoring_custom_id speech_id include_reasoning)
      = [''score'', str_int speech_id, str_int (if include_reasoning then 1 else 0)]"
    using split_on_append [of "CHR ''_''" "''score''"]
      split_on_append [OF underscore_notin_str_int, of speech_id]
      split_on_single [OF u]
    by (simp add: scoring_custom_id_def)
  then show ?thesis
    by (simp add: custom_id_parts_def py_int_str_int Let_def)
qed

lemma scoring_custom_id_suffix:
  "scoring_custom_id speech_id include_reasoning
     = ''score_'' @ str_int speech_id @ (if include_reasoning then ''_1'' else ''_0'')"
  by (simp add: scoring_custom_id_def str_int_def str_nat.simps digit_char_def)

lemma startswith_scoring:
  "startswith (scoring_custom_id speech_id include_reasoning) ''score_''"
  by (simp add: startswith_def scoring_custom_id_def)

lemma build_scoring_request_custom_id:
  "result_custom_id (build_scoring_request speech_id text topic prompt include_reasoning)
     = Inr (scoring_custom_id speech_id include_reasoning)"
  by (simp add: build_scoring_request_def result_custom_id_def)

text \<open>
  C10 (the stored rationale). Take a result whose custom id is the one that
  \<open>_build_scoring_request\<close> gave to the request of a speech, so that its suffix is \<open>_1\<close>
  exactly when reasoning was requested, and assume that the result yields a row. Then
  the row belongs to that speech, and its \<open>Reasoning\<close> field is the \<open>reasoning\<close> value of
  the parsed content when reasoning was requested and that value is present and
  non-empty; in every other case, a rationale returned for a request that asked for none
  included, the field is the empty string.
\<close>

theorem reasoning_only_when_requested:
  assumes row: "process_score_result loads speech_date file topic result = Inr (Some row)"
    and cid: "result_custom_id result = Inr (scoring_custom_id speech_id include_reasoning)"
  shows "\<exists>score_data reasoning.
           score_content loads result = Inr score_data
           \<and> py_get score_data ''reasoning'' = Inr reasoning
           \<and> sr_Id row = speech_id
           \<and> sr_Reasoning row =
               (case reasoning of
                  None \<Rightarrow> JStr []
                | Some v \<Rightarrow> if include_reasoning \<and> truthy v then v else JStr [])
           \<and> (\<not> include_reasoning \<longrightarrow> sr_Reasoning row = JStr [])"
proof -
  from row have "score_row_body loads speech_date file topic result speech_id include_reasoning
      = Inr (Some row)"
    by (auto simp: process_score_result_def cid startswith_scoring custom_id_parts_scoring
        split: sum.splits if_splits)
  then show ?thesis
    by (auto simp: score_row_body_def split: sum.splits if_splits option.splits)
qed

lemma ex_result_row:
  "process_score_result ex_score_loads ex_dates (Some [ex_row]) ''topicA''
     (ex_result (scoring_custom_id 7 True))
   = Inr (Some \<lparr>sr_Id = 7, sr_Date = JStr ''2020-01-01'', sr_Topic = ''topicA'',
                 sr_Text = ''text of speech 7'', sr_Rank = JInt 8,
                 sr_Reasoning = JStr ''clear support''\<rparr>)"
  by (simp add: process_score_result_def status_is_200_def result_custom_id_def ex_result_def
      startswith_scoring custom_id_parts_scoring score_row_body_def score_content_def
      ex_score_loads_def ex_dates_def get_speech_text_from_csv_def ex_row_def)

lemma ex_result_row_unrequested:
  "process_score_result ex_score_loads ex_dates (Some [ex_row]) ''topicA''
     (ex_result (scoring_custom_id 7 False))
   = Inr (Some \<lparr>sr_Id = 7, sr_Date = JStr ''2020-01-01'', sr_Topic = ''topicA'',
                 sr_Text = ''text of speech 7'', sr_Rank = JInt 8,
                 sr_Reasoning = JStr []\<rparr>)"
  by (simp add: process_score_result_def status_is_200_def result_custom_id_def ex_result_def
      startswith_scoring custom_id_parts_scoring score_row_body_def score_content_def
      ex_score_loads_def ex_dates_def get_speech_text_from_csv_def ex_row_def)

theorem reasoning_only_when_requested_witness:
  "sr_Reasoning
     (the (projr (process_score_result ex_score_loads ex_dates (Some [ex_row]) ''topicA''
        (ex_result (scoring_custom_id 7 True))))) = JStr ''clear support''
   \<and> sr_Reasoning
     (the (projr (process_score_result ex_score_loads ex_dates (Some [ex_row]) ''topicA''
        (ex_result (scoring_custom_id 7 False))))) = JStr []"
proof -
  have c: "\<And>b. result_custom_id (ex_result (scoring_custom_id 7 b)) = Inr (scoring_custom_id 7 b)"
    by (simp add: result_custom_id_def ex_result_def)
  have sc: "\<And>b. score_content ex_score_loads (ex_result (scoring_custom_id 7 b))
      = Inr (JObj [(''stance_score'', JInt 8), (''reasoning'', JStr ''clear support'')])"
    by (simp add: score_content_def ex_result_def ex_score_loads_def)
  from reasoning_only_when_requested [OF ex_result_row c] sc
  have 1: "sr_Reasoning \<lparr>sr_Id = 7, sr_Date = JStr ''2020-01-01'', sr_Topic = ''topicA'',
                 sr_Text = ''text of speech 7'', sr_Rank = JInt 8,
                 sr_Reasoning = JStr ''clear support''\<rparr> = JStr ''clear support''"
    by simp
  from reasoning_only_when_requested [OF ex_result_row_unrequested c]
  have 2: "sr_Reasoning \<lparr>sr_Id = 7, sr_Date = JStr ''2020-01-01'', sr_Topic = ''topicA'',
                 sr_Text = ''text of speech 7'', sr_Rank = JInt 8,
                 sr_Reasoning = JStr []\<rparr> = JStr []"
    by simp
  from 1 2 show ?thesis by (simp add: ex_result_row ex_result_row_unrequested)
qed

end
